theory Spec2Isabelle
  imports Main "HOL-Library.Sublist" "HOL-Library.AList"
begin

section \<open>Python values, exceptions and string operations\<close>

text \<open>
  The two services (\<^verbatim>\<open>rank.py\<close>, \<^verbatim>\<open>extract.py\<close>) handle values produced by
  \<^verbatim>\<open>json.loads\<close>. A Python \<^verbatim>\<open>dict\<close> keeps insertion order, so an object is an
  association list; \<^verbatim>\<open>d.get(k, v)\<close> reads it by key, \<^verbatim>\<open>d.items()\<close> is the list itself.
  The code never computes with floats (it only passes them on), so their type is a parameter.
  A \<^typ>\<open>char\<close> stands for a code point below 256.
\<close>

datatype 'f json =
    JNull
  | JBool bool
  | JInt int
  | JFloat 'f
  | JStr string
  | JArr "'f json list"
  | JObj "(string \<times> 'f json) list"

text \<open>
  \<^verbatim>\<open>HTTPException(status_code, detail)\<close> is what the code raises itself;
  \<^verbatim>\<open>AttributeError\<close> is what Python raises for \<^verbatim>\<open>x.get\<close> when \<^verbatim>\<open>x\<close> is not a dict.
\<close>

datatype py_exception =
    HTTPException nat string
  | AttributeError

definition dict_get :: "(string \<times> 'v) list \<Rightarrow> string \<Rightarrow> 'v \<Rightarrow> 'v" where
  "dict_get d k dflt = (case map_of d k of None \<Rightarrow> dflt | Some v \<Rightarrow> v)"

text \<open>\<^verbatim>\<open>x.get(k, dflt)\<close> on any parsed value: only a dict has the method.\<close>

fun py_get :: "'f json \<Rightarrow> string \<Rightarrow> 'f json \<Rightarrow> py_exception + 'f json" where
  "py_get (JObj d) k dflt = Inr (dict_get d k dflt)"
| "py_get _ k dflt = Inl AttributeError"

text \<open>\<^verbatim>\<open>s[7:-3]\<close>: the stop index is \<^verbatim>\<open>len(s) - 3\<close> clipped at 0, the start index is 7.\<close>

definition slice_7_m3 :: "string \<Rightarrow> string" where
  "slice_7_m3 s = drop 7 (take (length s - 3) s)"

text \<open>\<^verbatim>\<open>str.lower\<close> on code points below 256.\<close>

definition lower_char :: "char \<Rightarrow> char" where
  "lower_char c =
     (let n = (of_char c :: nat)
      in if (65 \<le> n \<and> n \<le> 90) \<or> (192 \<le> n \<and> n \<le> 222 \<and> n \<noteq> 215)
         then char_of (n + 32) else c)"

definition lower :: "string \<Rightarrow> string" where
  "lower s = map lower_char s"

definition endswith :: "string \<Rightarrow> string \<Rightarrow> bool" where
  "endswith s suf = suffix suf s"

text \<open>\<^verbatim>\<open>s.rsplit(sep, 1)[0]\<close> for a one-character separator: the part before the last
  separator, or all of \<^verbatim>\<open>s\<close> when there is none.\<close>

definition rsplit1_head :: "char \<Rightarrow> string \<Rightarrow> string" where
  "rsplit1_head sep s =
     (if sep \<in> set s then rev (tl (dropWhile (\<lambda>c. c \<noteq> sep) (rev s))) else s)"

text \<open>\<^verbatim>\<open>sep.join(xs)\<close>.\<close>

fun join :: "string \<Rightarrow> string list \<Rightarrow> string" where
  "join sep [] = []"
| "join sep [x] = x"
| "join sep (x # y # ys) = x @ sep @ join sep (y # ys)"

section \<open>The libraries and services the code calls\<close>

text \<open>
  PyPDF2, python-docx, the \<^verbatim>\<open>json\<close> module and the OpenAI client are not code of the
  repository: they are fields of a record the model takes as a parameter. A call that can
  raise returns \<open>Inl\<close> of the exception's message. The completion service may answer the
  same request differently each time, so it also sees the requests made before.
  \<open>criteria_completion\<close> is the one completion call of \<^verbatim>\<open>extract.py\<close>, with its fixed
  model, instruction text, length limit and temperature, as a function of the job text;
  \<open>literal_eval\<close> is \<^verbatim>\<open>ast.literal_eval\<close>, its result read as a value of the same type.
\<close>

record chat_request =
  model :: string
  messages :: "(string \<times> string) list"
  temperature :: int

record 'f library =
  json_loads :: "string \<Rightarrow> string + 'f json"
  json_dumps_indent2 :: "'f json \<Rightarrow> string"
  pdf_pages :: "string \<Rightarrow> string + string list"
  docx_paragraphs :: "string \<Rightarrow> string + string list"
  chat_create :: "chat_request list \<Rightarrow> chat_request \<Rightarrow> string + string"
  literal_eval :: "string \<Rightarrow> string + 'f json"
  criteria_completion :: "string \<Rightarrow> string + string"

record uploaded_file =
  filename :: string
  file_content :: string

section \<open>rank.py\<close>

text \<open>\<^verbatim>\<open>extract_text_from_pdf\<close> (the \<^verbatim>\<open>seek(0)\<close> of the \<^verbatim>\<open>finally\<close> block only rewinds
  the upload and is left out).\<close>

definition extract_text_from_pdf :: "'f library \<Rightarrow> uploaded_file \<Rightarrow> py_exception + string" where
  "extract_text_from_pdf lib uploaded =
     (case pdf_pages lib (file_content uploaded) of
        Inl e \<Rightarrow> Inl (HTTPException 400 (''Error processing PDF: '' @ e))
      | Inr pages \<Rightarrow>
          Inr (concat (map (\<lambda>page_text. if page_text \<noteq> [] then page_text @ ''\<newline>'' else []) pages)))"

definition extract_text_from_docx :: "'f library \<Rightarrow> uploaded_file \<Rightarrow> py_exception + string" where
  "extract_text_from_docx lib uploaded =
     (case docx_paragraphs lib (file_content uploaded) of
        Inl e \<Rightarrow> Inl (HTTPException 400 (''Error processing DOCX: '' @ e))
      | Inr paras \<Rightarrow> Inr (join ''\<newline>'' paras))"

definition system_message :: "string \<times> string" where
  "system_message =
     (''system'',
      ''You are an expert resume evaluator. Score candidates based on provided criteria using continuous scoring ranges.'')"

definition scoring_instructions :: string where
  \<open>scoring_instructions =
     ''Instructions:\<newline>'' @
     ''For each criterion in the nested groups, evaluate the candidate's resume and assign scores as follows:\<newline>\<newline>'' @
     ''1. **Must have**: Assign a score between 0 and 10. Use 0 if the criterion is not met at all, 10 if fully met, '' @
     ''and any intermediate value (e.g., 7) if the evidence is partial.\<newline>\<newline>'' @
     ''2. **Good to have**: Assign a score between 0 and 5, where 0 means not met and 5 means strongly met. '' @
     ''Intermediate values are allowed.\<newline>\<newline>'' @
     ''3. **Nice to have**: Assign a score between 0 and 2, where 0 means not met and 2 means strongly met, '' @
     ''with intermediate scores allowed.\<newline>\<newline>'' @
     ''After evaluating all criteria, compute the total score as the sum of all individual scores. '' @
     ''Return a JSON object in the following format exactly:\<newline>\<newline>'' @
     ''{\<newline>'' @
     ''  "candidate_name": "Candidate Name",\<newline>'' @
     ''  "scores": {\<newline>'' @
     ''      "Must have": {\<newline>'' @
     ''          "criterion 1": score,\<newline>'' @
     ''          "criterion 2": score,\<newline>'' @
     ''          ...\<newline>'' @
     ''      },\<newline>'' @
     ''      "Good to have": { ... },\<newline>'' @
     ''      "Nice to have": { ... }\<newline>'' @
     ''  },\<newline>'' @
     ''  "total_score": total_score\<newline>'' @
     ''}\<newline>\<newline>'' @
     ''Ensure that the JSON is properly formatted.''\<close>

definition user_message :: "'f library \<Rightarrow> string \<Rightarrow> string \<Rightarrow> 'f json \<Rightarrow> string \<times> string" where
  "user_message lib candidate_name resume_text criteria_data =
     (''user'',
      ''Candidate Name: '' @ candidate_name @ ''\<newline>\<newline>'' @
      ''Resume Text:\<newline>'' @ resume_text @ ''\<newline>\<newline>'' @
      ''Criteria (nested JSON):\<newline>'' @
      json_dumps_indent2 lib criteria_data @ ''\<newline>\<newline>'' @
      scoring_instructions)"

definition score_request :: "'f library \<Rightarrow> string \<Rightarrow> string \<Rightarrow> 'f json \<Rightarrow> chat_request" where
  "score_request lib candidate_name resume_text criteria_data =
     \<lparr>model = ''gpt-4o'',
      messages = [system_message, user_message lib candidate_name resume_text criteria_data],
      temperature = 0\<rparr>"

text \<open>
  \<^verbatim>\<open>get_gpt_scores\<close>. The first argument is the list of requests made so far; the
  function returns it extended by its own request, with the parsed reply or the exception.
  The content of the completion is taken to be a string, as the slice \<^verbatim>\<open>[7:-3]\<close> expects.
\<close>

definition get_gpt_scores ::
  "'f library \<Rightarrow> chat_request list \<Rightarrow> string \<Rightarrow> string \<Rightarrow> 'f json
     \<Rightarrow> chat_request list \<times> (py_exception + 'f json)" where
  "get_gpt_scores lib log candidate_name resume_text criteria_data =
     (let req = score_request lib candidate_name resume_text criteria_data
      in (log @ [req],
          case chat_create lib log req of
            Inl e \<Rightarrow> Inl (HTTPException 500 (''Error calling GPT API: '' @ e))
          | Inr content \<Rightarrow>
              (let reply = slice_7_m3 content
               in case json_loads lib reply of
                    Inl e \<Rightarrow>
                      Inl (HTTPException 500
                             (''Error parsing GPT response: '' @ e @ ''. Response was: '' @ reply))
                  | Inr result \<Rightarrow> Inr result)))"

text \<open>
  \<^verbatim>\<open>score_resumes\<close>, first part: the criteria payload. Every exception of the
  \<^verbatim>\<open>try\<close> block (a parse error, \<^verbatim>\<open>.get\<close> on a value that is no dict, the
  \<^verbatim>\<open>ValueError\<close> raised when \<^verbatim>\<open>"criteria"\<close> is no dict) becomes the same HTTP 400.
\<close>

definition invalid_criteria :: py_exception where
  \<open>invalid_criteria =
     HTTPException 400
       ''Invalid criteria format. Must be a JSON with a 'criteria' key containing nested groups.''\<close>

definition parse_criteria :: "'f library \<Rightarrow> string \<Rightarrow> py_exception + (string \<times> 'f json) list" where
  "parse_criteria lib criteria =
     (case json_loads lib criteria of
        Inl e \<Rightarrow> Inl invalid_criteria
      | Inr criteria_payload \<Rightarrow>
          (case py_get criteria_payload ''criteria'' JNull of
             Inl e \<Rightarrow> Inl invalid_criteria
           | Inr (JObj criteria_data) \<Rightarrow> Inr criteria_data
           | Inr _ \<Rightarrow> Inl invalid_criteria))"

text \<open>The flattening loop: groups in the order of \<^verbatim>\<open>criteria_data.items()\<close>, a group
  whose value is no dict is passed over, keys of a group in their order.\<close>

fun flatten_criteria :: "(string \<times> 'f json) list \<Rightarrow> (string \<times> string) list" where
  "flatten_criteria [] = []"
| "flatten_criteria ((grp, JObj group_criteria) # rest) =
     map (\<lambda>crit_key. (grp, crit_key)) (map fst group_criteria) @ flatten_criteria rest"
| "flatten_criteria ((grp, _) # rest) = flatten_criteria rest"

definition header_label :: "string \<times> string \<Rightarrow> string" where
  "header_label = (\<lambda>(grp, crit_key). grp @ '': '' @ crit_key)"

definition csv_header :: "(string \<times> string) list \<Rightarrow> string list" where
  "csv_header flattened_criteria =
     [''Candidate Name''] @ map header_label flattened_criteria @ [''Total Score'']"

text \<open>The inner loop of the row: one cell for each flattened pair, read with
  \<^verbatim>\<open>gpt_result.get("scores", {}).get(grp, {}).get(crit_key, 0)\<close>.\<close>

fun score_cells :: "'f json \<Rightarrow> (string \<times> string) list \<Rightarrow> py_exception + 'f json list" where
  "score_cells gpt_result [] = Inr []"
| "score_cells gpt_result ((grp, crit_key) # rest) =
     (case py_get gpt_result ''scores'' (JObj []) of
        Inl e \<Rightarrow> Inl e
      | Inr scores \<Rightarrow>
          (case py_get scores grp (JObj []) of
             Inl e \<Rightarrow> Inl e
           | Inr group_scores \<Rightarrow>
               (case py_get group_scores crit_key (JInt 0) of
                  Inl e \<Rightarrow> Inl e
                | Inr score \<Rightarrow>
                    (case score_cells gpt_result rest of
                       Inl e \<Rightarrow> Inl e
                     | Inr cells \<Rightarrow> Inr (score # cells)))))"

definition build_row ::
  "string \<Rightarrow> (string \<times> string) list \<Rightarrow> 'f json \<Rightarrow> py_exception + 'f json list" where
  "build_row candidate_name flattened_criteria gpt_result =
     (case score_cells gpt_result flattened_criteria of
        Inl e \<Rightarrow> Inl e
      | Inr cells \<Rightarrow>
          (case py_get gpt_result ''total_score'' (JInt 0) of
             Inl e \<Rightarrow> Inl e
           | Inr total_score \<Rightarrow> Inr ([JStr candidate_name] @ cells @ [total_score])))"

text \<open>
  The body of the loop over the files, after the text extraction. \<open>Inr None\<close> is a file
  passed over, \<open>Inr (Some row)\<close> the row given to \<^verbatim>\<open>writer.writerow\<close>, \<open>Inl e\<close> an
  exception, which nothing in \<^verbatim>\<open>score_resumes\<close> catches.
\<close>

definition score_text ::
  "'f library \<Rightarrow> (string \<times> 'f json) list \<Rightarrow> (string \<times> string) list \<Rightarrow> chat_request list
     \<Rightarrow> string \<Rightarrow> py_exception + string
     \<Rightarrow> chat_request list \<times> (py_exception + 'f json list option)" where
  "score_text lib criteria_data flattened_criteria log candidate_name extracted =
     (case extracted of
        Inl e \<Rightarrow> (log, Inl e)
      | Inr resume_text \<Rightarrow>
          (case get_gpt_scores lib log candidate_name resume_text (JObj criteria_data) of
             (log', Inl e) \<Rightarrow> (log', Inl e)
           | (log', Inr gpt_result) \<Rightarrow>
               (log', case build_row candidate_name flattened_criteria gpt_result of
                        Inl e \<Rightarrow> Inl e
                      | Inr row \<Rightarrow> Inr (Some row))))"

text \<open>The \<^verbatim>\<open>if\<close>/\<^verbatim>\<open>elif\<close>/\<^verbatim>\<open>else\<close> on the file name: the text extraction that applies,
  or \<open>None\<close> for the \<^verbatim>\<open>continue\<close> of an unsupported file type.\<close>

definition extract_resume_text ::
  "'f library \<Rightarrow> uploaded_file \<Rightarrow> (py_exception + string) option" where
  "extract_resume_text lib uploaded =
     (if endswith (lower (filename uploaded)) ''.pdf''
      then Some (extract_text_from_pdf lib uploaded)
      else if endswith (lower (filename uploaded)) ''.docx''
      then Some (extract_text_from_docx lib uploaded)
      else None)"

definition process_file ::
  "'f library \<Rightarrow> (string \<times> 'f json) list \<Rightarrow> (string \<times> string) list \<Rightarrow> chat_request list
     \<Rightarrow> uploaded_file \<Rightarrow> chat_request list \<times> (py_exception + 'f json list option)" where
  "process_file lib criteria_data flattened_criteria log uploaded =
     (let candidate_name = rsplit1_head (CHR ''.'') (filename uploaded)
      in case extract_resume_text lib uploaded of
           None \<Rightarrow> (log, Inr None)
         | Some extracted \<Rightarrow>
             score_text lib criteria_data flattened_criteria log candidate_name extracted)"

fun process_files ::
  "'f library \<Rightarrow> (string \<times> 'f json) list \<Rightarrow> (string \<times> string) list \<Rightarrow> chat_request list
     \<Rightarrow> 'f json list list \<Rightarrow> uploaded_file list
     \<Rightarrow> chat_request list \<times> (py_exception + 'f json list list)" where
  "process_files lib criteria_data flattened_criteria log rows [] = (log, Inr rows)"
| "process_files lib criteria_data flattened_criteria log rows (uploaded # files) =
     (case process_file lib criteria_data flattened_criteria log uploaded of
        (log', Inl e) \<Rightarrow> (log', Inl e)
      | (log', Inr None) \<Rightarrow> process_files lib criteria_data flattened_criteria log' rows files
      | (log', Inr (Some row)) \<Rightarrow>
          process_files lib criteria_data flattened_criteria log' (rows @ [row]) files)"

text \<open>
  \<^verbatim>\<open>score_resumes\<close>: the requests sent to the completion service, and either the
  exception that ended the request or the rows written, the header row first. The response
  is the CSV text \<^verbatim>\<open>csv.writer\<close> makes of these rows.
\<close>

definition score_resumes ::
  "'f library \<Rightarrow> string \<Rightarrow> uploaded_file list
     \<Rightarrow> chat_request list \<times> (py_exception + 'f json list list)" where
  "score_resumes lib criteria files =
     (case parse_criteria lib criteria of
        Inl e \<Rightarrow> ([], Inl e)
      | Inr criteria_data \<Rightarrow>
          (let flattened_criteria = flatten_criteria criteria_data
           in process_files lib criteria_data flattened_criteria []
                [map JStr (csv_header flattened_criteria)] files))"

section \<open>extract.py\<close>

text \<open>\<^verbatim>\<open>str.strip()\<close>: the characters with \<^verbatim>\<open>isspace()\<close> among the code points below 256.\<close>

definition isspace :: "char \<Rightarrow> bool" where
  "isspace c = ((of_char c :: nat) \<in> {9, 10, 11, 12, 13, 28, 29, 30, 31, 32, 133, 160})"

definition strip :: "string \<Rightarrow> string" where
  "strip s = rev (dropWhile isspace (rev (dropWhile isspace s)))"

text \<open>\<^verbatim>\<open>s.replace(old, new)\<close>: occurrences are replaced from the left and do not overlap;
  an empty \<^verbatim>\<open>old\<close> matches before every character and at the end.\<close>

function replace :: "string \<Rightarrow> string \<Rightarrow> string \<Rightarrow> string" where
  "replace old new [] = (if old = [] then new else [])"
| "replace old new (c # cs) =
     (if old = [] then new @ concat (map (\<lambda>x. x # new) (c # cs))
      else if prefix old (c # cs) then new @ replace old new (drop (length old) (c # cs))
      else c # replace old new cs)"
  by pat_completeness auto
termination
  by (relation "measure (\<lambda>(old, new, s). length s)") auto

definition normalize_booleans :: "string \<Rightarrow> string" where
  "normalize_booleans criteria_text = replace ''False'' ''false'' (replace ''True'' ''true'' criteria_text)"

text \<open>
  \<^verbatim>\<open>extract_criteria_from_text\<close>: the outer \<^verbatim>\<open>try\<close> turns every exception, of the
  completion call or of the fallback, into an HTTP 500 with the exception's message.
\<close>

definition processing_error :: "string \<Rightarrow> py_exception" where
  "processing_error e = HTTPException 500 (''Error processing text with OpenAI: '' @ e)"

definition parse_criteria_text :: "'f library \<Rightarrow> string \<Rightarrow> py_exception + 'f json" where
  "parse_criteria_text lib criteria_text =
     (let normalized_text = normalize_booleans criteria_text
      in case json_loads lib normalized_text of
           Inr parsed \<Rightarrow> Inr parsed
         | Inl _ \<Rightarrow>
             (case literal_eval lib criteria_text of
                Inr parsed \<Rightarrow> Inr parsed
              | Inl e \<Rightarrow> Inl (processing_error e)))"

definition extract_criteria_from_text :: "'f library \<Rightarrow> string \<Rightarrow> py_exception + 'f json" where
  "extract_criteria_from_text lib job_text =
     (case criteria_completion lib job_text of
        Inl e \<Rightarrow> Inl (processing_error e)
      | Inr content \<Rightarrow> parse_criteria_text lib (strip content))"

section \<open>A concrete library and concrete requests\<close>

text \<open>
  The theorems below hold for every library. To run the code on concrete requests, the
  following library answers as the real ones do on the few texts used: \<^verbatim>\<open>json.loads\<close>
  and \<^verbatim>\<open>ast.literal_eval\<close> are tables of the texts they accept, with their values, and
  reject every other text; \<^verbatim>\<open>json.dumps\<close> is a table of the values that are dumped.
\<close>

definition criteria_json :: string where
  \<open>criteria_json = ''{"criteria": {"Must have": {"Python": "2", "SQL": true}}}''\<close>

definition criteria_value :: "unit json" where
  "criteria_value =
     JObj [(''criteria'', JObj [(''Must have'', JObj [(''Python'', JStr ''2''), (''SQL'', JBool True)])])]"

definition fenced_reply :: string where
  \<open>fenced_reply =
     ''```json\<newline>{"candidate_name": "Alice A.", "scores": {"Must have": {"Python": 8}}, "total_score": 3}\<newline>```''\<close>

definition fenced_reply_body :: string where
  \<open>fenced_reply_body =
     ''\<newline>{"candidate_name": "Alice A.", "scores": {"Must have": {"Python": 8}}, "total_score": 3}\<newline>''\<close>

definition fenced_reply_value :: "unit json" where
  "fenced_reply_value =
     JObj [(''candidate_name'', JStr ''Alice A.''),
           (''scores'', JObj [(''Must have'', JObj [(''Python'', JInt 8)])]),
           (''total_score'', JInt 3)]"

text \<open>A payload that lists the tiers in another order, and one with two more top-level keys.\<close>

definition nice_first_json :: string where
  \<open>nice_first_json =
     ''{"criteria": {"Nice to have": {"Golf": true}, "Must have": {"Python": "2"}}}''\<close>

definition nice_first_value :: "unit json" where
  "nice_first_value =
     JObj [(''criteria'',
            JObj [(''Nice to have'', JObj [(''Golf'', JBool True)]),
                  (''Must have'', JObj [(''Python'', JStr ''2'')])])]"

definition bonus_json :: string where
  \<open>bonus_json =
     ''{"criteria": {"Must have": {"Python": "2"}, "Bonus": {"Chess": true}, "notes": "urgent"}}''\<close>

definition bonus_value :: "unit json" where
  "bonus_value =
     JObj [(''criteria'',
            JObj [(''Must have'', JObj [(''Python'', JStr ''2'')]),
                  (''Bonus'', JObj [(''Chess'', JBool True)]),
                  (''notes'', JStr ''urgent'')])]"

definition bonus_criteria :: "(string \<times> unit json) list" where
  "bonus_criteria =
     [(''Must have'', JObj [(''Python'', JStr ''2'')]),
      (''Bonus'', JObj [(''Chess'', JBool True)]),
      (''notes'', JStr ''urgent'')]"

text \<open>A completion that gives \<^verbatim>\<open>null\<close> for a tier instead of leaving the tier out.\<close>

definition null_tier_reply :: string where
  \<open>null_tier_reply =
     ''```json\<newline>{"candidate_name": "Alice A.", "scores": {"Must have": null}, "total_score": 0}\<newline>```''\<close>

definition null_tier_body :: string where
  \<open>null_tier_body =
     ''\<newline>{"candidate_name": "Alice A.", "scores": {"Must have": null}, "total_score": 0}\<newline>''\<close>

definition null_tier_value :: "unit json" where
  "null_tier_value =
     JObj [(''candidate_name'', JStr ''Alice A.''),
           (''scores'', JObj [(''Must have'', JNull)]),
           (''total_score'', JInt 0)]"

text \<open>
  What \<^verbatim>\<open>json.dumps(..., indent=2)\<close> gives for the criteria of the payloads above and for
  the first payload as a whole: the values that are dumped in the runs below.
\<close>

definition criteria_dump :: string where
  \<open>criteria_dump =
     ''{\<newline>'' @
     ''  "Must have": {\<newline>'' @
     ''    "Python": "2",\<newline>'' @
     ''    "SQL": true\<newline>'' @
     ''  }\<newline>'' @
     ''}''\<close>

definition criteria_value_dump :: string where
  \<open>criteria_value_dump =
     ''{\<newline>'' @
     ''  "criteria": {\<newline>'' @
     ''    "Must have": {\<newline>'' @
     ''      "Python": "2",\<newline>'' @
     ''      "SQL": true\<newline>'' @
     ''    }\<newline>'' @
     ''  }\<newline>'' @
     ''}''\<close>

definition nice_first_dump :: string where
  \<open>nice_first_dump =
     ''{\<newline>'' @
     ''  "Nice to have": {\<newline>'' @
     ''    "Golf": true\<newline>'' @
     ''  },\<newline>'' @
     ''  "Must have": {\<newline>'' @
     ''    "Python": "2"\<newline>'' @
     ''  }\<newline>'' @
     ''}''\<close>

definition bonus_dump :: string where
  \<open>bonus_dump =
     ''{\<newline>'' @
     ''  "Must have": {\<newline>'' @
     ''    "Python": "2"\<newline>'' @
     ''  },\<newline>'' @
     ''  "Bonus": {\<newline>'' @
     ''    "Chess": true\<newline>'' @
     ''  },\<newline>'' @
     ''  "notes": "urgent"\<newline>'' @
     ''}''\<close>

definition dumps_table :: "(unit json \<times> string) list" where
  "dumps_table =
     [(JObj [(''Must have'', JObj [(''Python'', JStr ''2''), (''SQL'', JBool True)])], criteria_dump),
      (criteria_value, criteria_value_dump),
      (JObj [(''Nice to have'', JObj [(''Golf'', JBool True)]),
             (''Must have'', JObj [(''Python'', JStr ''2'')])], nice_first_dump),
      (JObj bonus_criteria, bonus_dump)]"

definition table_dumps :: "(unit json \<times> string) list \<Rightarrow> unit json \<Rightarrow> string" where
  "table_dumps table v = (case map_of table v of Some s \<Rightarrow> s | None \<Rightarrow> ''null'')"

definition json_table :: "(string \<times> unit json) list" where
  "json_table =
     [(criteria_json, criteria_value),
      (nice_first_json, nice_first_value),
      (bonus_json, bonus_value),
      (fenced_reply_body, fenced_reply_value),
      (null_tier_body, null_tier_value)]"

definition table_loads :: "(string \<times> unit json) list \<Rightarrow> string \<Rightarrow> string \<Rightarrow> string + unit json" where
  "table_loads table message s = (case map_of table s of Some v \<Rightarrow> Inr v | None \<Rightarrow> Inl message)"

definition example_library :: "unit library" where
  "example_library =
     \<lparr>json_loads = table_loads json_table ''Expecting value: line 1 column 1 (char 0)'',
      json_dumps_indent2 = table_dumps dumps_table,
      pdf_pages =
        (\<lambda>b. if b = ''%PDF-1.4 alice'' then Inr [''Alice'', [], ''Python 5 years'']
              else Inl ''EOF marker not found''),
      docx_paragraphs =
        (\<lambda>b. if b = ''PK bob'' then Inr [''Bob'', ''SQL''] else Inl ''File is not a zip file''),
      chat_create = (\<lambda>log req. Inr fenced_reply),
      literal_eval = table_loads [] ''invalid syntax (<unknown>, line 1)'',
      criteria_completion = (\<lambda>job_text. Inl ''Connection error.'')\<rparr>"

definition alice_pdf :: uploaded_file where
  "alice_pdf = \<lparr>filename = ''alice_cv.PDF'', file_content = ''%PDF-1.4 alice''\<rparr>"

definition broken_pdf :: uploaded_file where
  "broken_pdf = \<lparr>filename = ''broken.pdf'', file_content = ''not a pdf''\<rparr>"

definition notes_txt :: uploaded_file where
  "notes_txt = \<lparr>filename = ''notes.txt'', file_content = ''Alice is great''\<rparr>"

text \<open>A completion without the code fence: the fixed offsets cut into the JSON text.\<close>

definition unfenced_reply :: string where
  \<open>unfenced_reply = ''{"total_score": 8}''\<close>

definition null_tier_library :: "unit library" where
  "null_tier_library = example_library\<lparr>chat_create := (\<lambda>log req. Inr null_tier_reply)\<rparr>"

definition unfenced_library :: "unit library" where
  "unfenced_library = example_library\<lparr>chat_create := (\<lambda>log req. Inr unfenced_reply)\<rparr>"

text \<open>
  The words of the specification for the parsing of the criteria text, to compare with
  \<open>parse_criteria_text\<close>: a strict parse of the raw text first, then a strict parse of the
  normalized text, then a failure that carries the raw text (\<open>Inl\<close>).
\<close>

definition spec_two_stage_parse :: "'f library \<Rightarrow> string \<Rightarrow> string + 'f json" where
  "spec_two_stage_parse lib raw_text =
     (case json_loads lib raw_text of
        Inr parsed \<Rightarrow> Inr parsed
      | Inl _ \<Rightarrow>
          (case json_loads lib (normalize_booleans raw_text) of
             Inr parsed \<Rightarrow> Inr parsed
           | Inl _ \<Rightarrow> Inl raw_text))"

text \<open>Completions for the criteria extraction: a JSON text with \<^verbatim>\<open>True\<close> inside a criterion
  name, the same criteria written as a Python literal, and a reply in prose.\<close>

definition true_north_json :: string where
  \<open>true_north_json = ''{"Must have": {"True North certified": true}}''\<close>

definition true_north_normalized :: string where
  \<open>true_north_normalized = ''{"Must have": {"true North certified": true}}''\<close>

definition true_north_python :: string where
  \<open>true_north_python = ''{'Must have': {'True North certified': True}}''\<close>

definition true_north_value :: "unit json" where
  "true_north_value = JObj [(''Must have'', JObj [(''True North certified'', JBool True)])]"

definition true_north_lowered :: "unit json" where
  "true_north_lowered = JObj [(''Must have'', JObj [(''true North certified'', JBool True)])]"

definition criteria_library :: "unit library" where
  "criteria_library =
     example_library
       \<lparr>json_loads :=
          table_loads [(true_north_json, true_north_value), (true_north_normalized, true_north_lowered)]
            ''Expecting value: line 1 column 1 (char 0)'',
        literal_eval :=
          table_loads [(true_north_python, true_north_value)] ''invalid syntax (<unknown>, line 1)'',
        criteria_completion :=
          (\<lambda>job_text.
             if job_text = ''Pilot, True North certified'' then Inr ('' '' @ true_north_json @ ''\<newline>'')
             else if job_text = ''Pilot (written by a script)'' then Inr true_north_python
             else Inr ''Sorry, I cannot help.'')\<rparr>"

text \<open>
  A device to ask what the code does with the reported total: the same parser, except that
  every reply that is a dict gets \<^verbatim>\<open>reply["total_score"] = v\<close>.
\<close>

definition reply_with_total :: "'f json \<Rightarrow> string + 'f json \<Rightarrow> string + 'f json" where
  "reply_with_total v reply =
     (case reply of
        Inr (JObj d) \<Rightarrow> Inr (JObj (AList.update ''total_score'' v d))
      | _ \<Rightarrow> reply)"

text \<open>A completion service that answers the second request differently, and a second resume.\<close>

definition second_reply :: string where
  \<open>second_reply =
     ''```json\<newline>{"candidate_name": "Bob B.", "scores": {"Must have": {"Python": 5, "SQL": 2}}, "total_score": 7}\<newline>```''\<close>

definition second_reply_body :: string where
  \<open>second_reply_body =
     ''\<newline>{"candidate_name": "Bob B.", "scores": {"Must have": {"Python": 5, "SQL": 2}}, "total_score": 7}\<newline>''\<close>

definition second_reply_value :: "unit json" where
  "second_reply_value =
     JObj [(''candidate_name'', JStr ''Bob B.''),
           (''scores'', JObj [(''Must have'', JObj [(''Python'', JInt 5), (''SQL'', JInt 2)])]),
           (''total_score'', JInt 7)]"

definition two_reply_library :: "unit library" where
  "two_reply_library =
     example_library
       \<lparr>json_loads :=
          table_loads (json_table @ [(second_reply_body, second_reply_value)])
            ''Expecting value: line 1 column 1 (char 0)'',
        chat_create := (\<lambda>log req. if log = [] then Inr fenced_reply else Inr second_reply)\<rparr>"

definition bob_docx :: uploaded_file where
  "bob_docx = \<lparr>filename = ''bob.docx'', file_content = ''PK bob''\<rparr>"





section \<open>Properties of the string operations\<close>

lemma slice_7_m3_alt: "slice_7_m3 s = take (length s - 10) (drop 7 s)"
  by (simp add: slice_7_m3_def drop_take)

lemma slice_7_m3_decompose:
  assumes "10 \<le> length s"
  shows "\<exists>pre suf. length pre = 7 \<and> length suf = 3 \<and> s = pre @ slice_7_m3 s @ suf"
proof -
  let ?pre = "take 7 s" and ?suf = "drop (length s - 3) s"
  have "take 7 (take (length s - 3) s) = ?pre" using assms by (auto simp: min_def)
  then have "?pre @ slice_7_m3 s = take (length s - 3) s"
    unfolding slice_7_m3_def by (metis append_take_drop_id)
  then have "s = ?pre @ slice_7_m3 s @ ?suf"
    by (metis append_assoc append_take_drop_id)
  moreover have "length ?pre = 7" "length ?suf = 3" using assms by auto
  ultimately show ?thesis by blast
qed

section \<open>The score evaluator: \<^verbatim>\<open>get_gpt_scores\<close>\<close>

text \<open>
  Claim C2. Whatever completion the service returns, \<^verbatim>\<open>get_gpt_scores\<close> parses the
  completion without its first 7 and its last 3 characters (nothing is left of a completion
  shorter than 10 characters), and when \<^verbatim>\<open>json.loads\<close> rejects that text it raises an
  HTTP 500 whose detail ends with the very text it tried to parse; otherwise it returns
  the parsed value unchanged.
\<close>

theorem get_gpt_scores_strips_then_parses:
  assumes "chat_create lib log (score_request lib candidate_name resume_text criteria_data) = Inr content"
  shows "\<exists>reply. reply = take (length content - 10) (drop 7 content) \<and>
           (10 \<le> length content \<longrightarrow>
              (\<exists>pre suf. length pre = 7 \<and> length suf = 3 \<and> content = pre @ reply @ suf)) \<and>
           snd (get_gpt_scores lib log candidate_name resume_text criteria_data) =
             (case json_loads lib reply of
                Inr result \<Rightarrow> Inr result
              | Inl e \<Rightarrow>
                  Inl (HTTPException 500
                         (''Error parsing GPT response: '' @ e @ ''. Response was: '' @ reply)))"
proof -
  have "snd (get_gpt_scores lib log candidate_name resume_text criteria_data) =
          (case json_loads lib (slice_7_m3 content) of
             Inr result \<Rightarrow> Inr result
           | Inl e \<Rightarrow>
               Inl (HTTPException 500
                      (''Error parsing GPT response: '' @ e @ ''. Response was: '' @ slice_7_m3 content)))"
    using assms by (simp add: get_gpt_scores_def Let_def split: sum.splits)
  then show ?thesis
    using slice_7_m3_decompose [of content] unfolding slice_7_m3_alt by simp
qed

theorem get_gpt_scores_strips_then_parses_witness:
  \<open>chat_create unfenced_library []
      (score_request unfenced_library ''alice_cv'' ''Alice'' criteria_value) = Inr unfenced_reply \<and>
    10 \<le> length unfenced_reply \<and>
    unfenced_reply = ''{"total'' @ ''_score":'' @ '' 8}'' \<and>
    snd (get_gpt_scores unfenced_library [] ''alice_cv'' ''Alice'' criteria_value) =
      Inl (HTTPException 500
             ''Error parsing GPT response: Expecting value: line 1 column 1 (char 0). Response was: _score":'')\<close>
proof -
  have chat: "chat_create unfenced_library []
      (score_request unfenced_library ''alice_cv'' ''Alice'' criteria_value) = Inr unfenced_reply"
    by (simp add: unfenced_library_def)
  show ?thesis
    using get_gpt_scores_strips_then_parses [OF chat]
    by (simp add: unfenced_library_def example_library_def unfenced_reply_def table_loads_def
        json_table_def criteria_json_def fenced_reply_body_def nice_first_json_def bonus_json_def
        null_tier_body_def)
qed

section \<open>The batch scorer: \<^verbatim>\<open>score_resumes\<close>\<close>

lemma process_files_append:
  "process_files lib cd fl log rows (xs @ ys) =
     (case process_files lib cd fl log rows xs of
        (log', Inl e) \<Rightarrow> (log', Inl e)
      | (log', Inr rows') \<Rightarrow> process_files lib cd fl log' rows' ys)"
  by (induction xs arbitrary: log rows) (auto split: prod.splits sum.splits option.splits)

lemma process_file_unsupported:
  assumes "\<not> endswith (lower (filename uploaded)) ''.pdf''"
    and "\<not> endswith (lower (filename uploaded)) ''.docx''"
  shows "process_file lib cd fl log uploaded = (log, Inr None)"
  using assms by (simp add: process_file_def extract_resume_text_def)

lemma process_files_filter:
  "process_files lib cd fl log rows files =
   process_files lib cd fl log rows
     (filter (\<lambda>f. endswith (lower (filename f)) ''.pdf'' \<or> endswith (lower (filename f)) ''.docx'') files)"
proof (induction files arbitrary: log rows)
  case Nil
  show ?case by simp
next
  case (Cons f fs)
  show ?case
  proof (cases "endswith (lower (filename f)) ''.pdf'' \<or> endswith (lower (filename f)) ''.docx''")
    case True
    then show ?thesis
      using Cons.IH by (auto split: prod.splits sum.splits option.splits)
  next
    case False
    then have "process_file lib cd fl log f = (log, Inr None)"
      by (simp add: process_file_unsupported)
    with False show ?thesis using Cons.IH by simp
  qed
qed

text \<open>
  Claim C9. A file whose name, lower-cased, ends in neither \<^verbatim>\<open>.pdf\<close> nor \<^verbatim>\<open>.docx\<close> is
  passed over: the whole outcome of \<^verbatim>\<open>score_resumes\<close> (the completion requests made, the
  rows written, the exception if any) is the outcome for the batch without these files.
\<close>

theorem unsupported_files_are_skipped:
  "score_resumes lib criteria files =
   score_resumes lib criteria
     (filter (\<lambda>f. endswith (lower (filename f)) ''.pdf'' \<or> endswith (lower (filename f)) ''.docx'') files)"
  unfolding score_resumes_def Let_def
  by (cases "parse_criteria lib criteria") (simp_all add: process_files_filter [symmetric])

theorem unsupported_files_are_skipped_witness:
  "score_resumes example_library criteria_json [notes_txt, alice_pdf, notes_txt] =
     score_resumes example_library criteria_json [alice_pdf] \<and>
   length (fst (score_resumes example_library criteria_json [notes_txt, alice_pdf, notes_txt])) = 1 \<and>
   score_resumes example_library criteria_json [notes_txt] =
     ([], Inr [[JStr ''Candidate Name'', JStr ''Must have: Python'', JStr ''Must have: SQL'', JStr ''Total Score'']])"
proof -
  have "filter (\<lambda>f. endswith (lower (filename f)) ''.pdf'' \<or> endswith (lower (filename f)) ''.docx'')
          [notes_txt, alice_pdf, notes_txt] = [alice_pdf]"
    by code_simp
  with unsupported_files_are_skipped [of example_library criteria_json "[notes_txt, alice_pdf, notes_txt]"]
  have a: "score_resumes example_library criteria_json [notes_txt, alice_pdf, notes_txt] =
     score_resumes example_library criteria_json [alice_pdf]" by simp
  have b: "length (fst (score_resumes example_library criteria_json [alice_pdf])) = 1" by code_simp
  have c: "score_resumes example_library criteria_json [notes_txt] =
     ([], Inr [[JStr ''Candidate Name'', JStr ''Must have: Python'', JStr ''Must have: SQL'', JStr ''Total Score'']])"
    by code_simp
  from a b c show ?thesis by simp
qed

lemma build_row_head:
  "build_row candidate_name fl gpt_result = Inr row \<Longrightarrow> \<exists>cells. row = JStr candidate_name # cells"
  by (auto simp: build_row_def split: sum.splits)

lemma process_file_row_head:
  assumes "process_file lib cd fl log f = (log', Inr (Some row))"
  shows "\<exists>cells. row = JStr (rsplit1_head (CHR ''.'') (filename f)) # cells"
  using assms
  by (auto simp: process_file_def score_text_def Let_def
      split: option.splits sum.splits prod.splits dest: build_row_head)

lemma lower_char_dot: "lower_char d = CHR ''.'' \<longleftrightarrow> d = CHR ''.''"
proof
  assume h: "lower_char d = CHR ''.''"
  let ?n = "of_char d :: nat"
  have bound: "?n < 256"
    by (metis of_char_mod_256 mod_less_divisor zero_less_numeral)
  show "d = CHR ''.''"
  proof (cases "(65 \<le> ?n \<and> ?n \<le> 90) \<or> (192 \<le> ?n \<and> ?n \<le> 222 \<and> ?n \<noteq> 215)")
    case True
    then have "lower_char d = char_of (?n + 32)" by (simp add: lower_char_def Let_def)
    with h have "(of_char (char_of (?n + 32) :: char) :: nat) = of_char (CHR ''.'')" by simp
    then have "(?n + 32) mod 256 = 46" by simp
    with True bound show ?thesis by auto
  next
    case False
    then have "lower_char d = d" by (auto simp add: lower_char_def Let_def)
    with h show ?thesis by simp
  qed
next
  assume "d = CHR ''.''"
  then show "lower_char d = CHR ''.''" by (simp add: lower_char_def)
qed

lemma rsplit1_head_append:
  assumes "sep \<notin> set ext"
  shows "rsplit1_head sep (name @ sep # ext) = name"
proof -
  have "dropWhile (\<lambda>c. c \<noteq> sep) (rev ext @ sep # rev name) =
          dropWhile (\<lambda>c. c \<noteq> sep) (sep # rev name)"
    by (rule dropWhile_append2) (use assms in auto)
  then show ?thesis by (simp add: rsplit1_head_def)
qed

lemma lower_suffix_decompose:
  assumes "endswith (lower fn) (CHR ''.'' # e)" and "CHR ''.'' \<notin> set e"
  shows "\<exists>ext. fn = rsplit1_head (CHR ''.'') fn @ ''.'' @ ext \<and> CHR ''.'' \<notin> set ext \<and> lower ext = e"
proof -
  from assms(1) obtain pre where "map lower_char fn = pre @ CHR ''.'' # e"
    by (auto simp: endswith_def lower_def suffix_def)
  then obtain a d ext where fn: "fn = a @ d # ext" and d: "lower_char d = CHR ''.''"
    and ext: "map lower_char ext = e"
    by (auto simp: map_eq_append_conv map_eq_Cons_conv)
  from d have d': "d = CHR ''.''" by (simp add: lower_char_dot)
  have nodot: "CHR ''.'' \<notin> set ext"
  proof
    assume "CHR ''.'' \<in> set ext"
    then have "lower_char (CHR ''.'') \<in> lower_char ` set ext" by (rule imageI)
    then have "lower_char (CHR ''.'') \<in> set (map lower_char ext)" by simp
    moreover have "lower_char (CHR ''.'') = CHR ''.''" by (simp add: lower_char_def)
    ultimately show False using ext assms(2) by simp
  qed
  from fn d' nodot have "rsplit1_head (CHR ''.'') fn = a" by (simp add: rsplit1_head_append)
  with fn d' nodot ext show ?thesis by (auto simp: lower_def)
qed

lemma supported_name_decompose:
  assumes "endswith (lower fn) ''.pdf'' \<or> endswith (lower fn) ''.docx''"
  shows "\<exists>ext. fn = rsplit1_head (CHR ''.'') fn @ ''.'' @ ext \<and> CHR ''.'' \<notin> set ext \<and>
           (lower ext = ''pdf'' \<or> lower ext = ''docx'')"
  using assms lower_suffix_decompose [of fn "''pdf''"] lower_suffix_decompose [of fn "''docx''"]
  by auto

lemma process_file_cases:
  assumes "process_file lib cd fl log f = (log', Inr r)"
  shows "(r = None \<and> log' = log \<and>
            \<not> (endswith (lower (filename f)) ''.pdf'' \<or> endswith (lower (filename f)) ''.docx'')) \<or>
         ((\<exists>cells. r = Some (JStr (rsplit1_head (CHR ''.'') (filename f)) # cells)) \<and>
            (endswith (lower (filename f)) ''.pdf'' \<or> endswith (lower (filename f)) ''.docx''))"
  using assms
  by (auto simp: process_file_def extract_resume_text_def score_text_def Let_def
      split: option.splits sum.splits prod.splits if_splits dest: build_row_head)

lemma process_files_names:
  assumes "process_files lib cd fl log rows files = (log', Inr rows')"
  shows "\<exists>new. rows' = rows @ new \<and>
           map hd new =
             map (\<lambda>f. JStr (rsplit1_head (CHR ''.'') (filename f)))
               (filter (\<lambda>f. endswith (lower (filename f)) ''.pdf'' \<or> endswith (lower (filename f)) ''.docx'') files)"
  using assms
proof (induction files arbitrary: log rows)
  case Nil
  then show ?case by simp
next
  case (Cons f fs)
  obtain l1 r1 where pf: "process_file lib cd fl log f = (l1, r1)" by (cases "process_file lib cd fl log f")
  show ?case
  proof (cases r1)
    case (Inl e)
    with pf Cons.prems show ?thesis by simp
  next
    case (Inr r)
    note pc = process_file_cases [OF pf [unfolded Inr]]
    show ?thesis
    proof (cases r)
      case None
      with pf Inr Cons.prems have "process_files lib cd fl l1 rows fs = (log', Inr rows')" by simp
      from Cons.IH [OF this] pc None show ?thesis by auto
    next
      case (Some row)
      with pf Inr Cons.prems have "process_files lib cd fl l1 (rows @ [row]) fs = (log', Inr rows')" by simp
      from Cons.IH [OF this] obtain new where new: "rows' = (rows @ [row]) @ new"
        "map hd new = map (\<lambda>f. JStr (rsplit1_head (CHR ''.'') (filename f)))
               (filter (\<lambda>f. endswith (lower (filename f)) ''.pdf'' \<or> endswith (lower (filename f)) ''.docx'') fs)"
        by blast
      from pc Some obtain cells where
        row: "row = JStr (rsplit1_head (CHR ''.'') (filename f)) # cells"
        and sup: "endswith (lower (filename f)) ''.pdf'' \<or> endswith (lower (filename f)) ''.docx''"
        by auto
      have "rows' = rows @ (row # new)" using new(1) by simp
      moreover have "map hd (row # new) = map (\<lambda>f. JStr (rsplit1_head (CHR ''.'') (filename f)))
               (filter (\<lambda>f. endswith (lower (filename f)) ''.pdf'' \<or> endswith (lower (filename f)) ''.docx'') (f # fs))"
        using new(2) row sup by simp
      ultimately show ?thesis by blast
    qed
  qed
qed

text \<open>
  Claim C8. When \<^verbatim>\<open>score_resumes\<close> returns a table, the first cells of its data rows are,
  in order, the names of the files of a supported type, each cut at its last dot, whatever
  the completion service answered (in particular whatever \<^verbatim>\<open>candidate_name\<close> it returned);
  and such a name does have a last dot, followed by \<^verbatim>\<open>pdf\<close> or \<^verbatim>\<open>docx\<close> in some case.
\<close>

theorem candidate_name_is_file_stem:
  assumes "snd (score_resumes lib criteria files) = Inr table"
  shows "map hd (tl table) =
           map (\<lambda>f. JStr (rsplit1_head (CHR ''.'') (filename f)))
             (filter (\<lambda>f. endswith (lower (filename f)) ''.pdf'' \<or> endswith (lower (filename f)) ''.docx'') files) \<and>
         (\<forall>f \<in> set files.
            endswith (lower (filename f)) ''.pdf'' \<or> endswith (lower (filename f)) ''.docx'' \<longrightarrow>
            (\<exists>ext. filename f = rsplit1_head (CHR ''.'') (filename f) @ ''.'' @ ext \<and>
                   CHR ''.'' \<notin> set ext \<and> (lower ext = ''pdf'' \<or> lower ext = ''docx'')))"
proof -
  from assms obtain cd where cd: "parse_criteria lib criteria = Inr cd"
    by (cases "parse_criteria lib criteria") (auto simp: score_resumes_def)
  from assms cd obtain log' where
    "process_files lib cd (flatten_criteria cd) [] [map JStr (csv_header (flatten_criteria cd))] files
       = (log', Inr table)"
    by (cases "process_files lib cd (flatten_criteria cd) [] [map JStr (csv_header (flatten_criteria cd))] files")
       (auto simp: score_resumes_def Let_def)
  from process_files_names [OF this] have "map hd (tl table) =
           map (\<lambda>f. JStr (rsplit1_head (CHR ''.'') (filename f)))
             (filter (\<lambda>f. endswith (lower (filename f)) ''.pdf'' \<or> endswith (lower (filename f)) ''.docx'') files)"
    by auto
  then show ?thesis using supported_name_decompose by blast
qed

theorem candidate_name_is_file_stem_witness:
  "snd (score_resumes example_library criteria_json [alice_pdf, notes_txt]) =
     Inr [[JStr ''Candidate Name'', JStr ''Must have: Python'', JStr ''Must have: SQL'', JStr ''Total Score''],
          [JStr ''alice_cv'', JInt 8, JInt 0, JInt 3]] \<and>
   endswith (lower (filename alice_pdf)) ''.pdf'' \<and>
   filename alice_pdf = ''alice_cv'' @ ''.'' @ ''PDF'' \<and>
   rsplit1_head (CHR ''.'') (filename alice_pdf) = ''alice_cv'' \<and>
   dict_get [(''candidate_name'', JStr ''Alice A.'')] ''candidate_name'' JNull = (JStr ''Alice A.'' :: unit json)"
proof -
  have run: "snd (score_resumes example_library criteria_json [alice_pdf, notes_txt]) =
     Inr [[JStr ''Candidate Name'', JStr ''Must have: Python'', JStr ''Must have: SQL'', JStr ''Total Score''],
          [JStr ''alice_cv'', JInt 8, JInt 0, JInt 3]]"
    by code_simp
  have rest: "endswith (lower (filename alice_pdf)) ''.pdf'' \<and>
   filename alice_pdf = ''alice_cv'' @ ''.'' @ ''PDF'' \<and>
   rsplit1_head (CHR ''.'') (filename alice_pdf) = ''alice_cv'' \<and>
   dict_get [(''candidate_name'', JStr ''Alice A.'')] ''candidate_name'' JNull = (JStr ''Alice A.'' :: unit json)"
    by code_simp
  show ?thesis
    using candidate_name_is_file_stem [OF run] run rest by blast
qed

lemma extract_resume_text_error:
  assumes "extract_resume_text lib uploaded = Some (Inl e)"
  shows "\<exists>msg. e = HTTPException 400 (''Error processing PDF: '' @ msg) \<or>
               e = HTTPException 400 (''Error processing DOCX: '' @ msg)"
  using assms
  by (auto simp: extract_resume_text_def extract_text_from_pdf_def extract_text_from_docx_def
      split: if_splits sum.splits)

lemma process_file_extraction_fails:
  assumes "extract_resume_text lib uploaded = Some (Inl e)"
  shows "process_file lib cd fl log uploaded = (log, Inl e)"
  using assms by (simp add: process_file_def score_text_def)

lemma process_files_extraction_fails:
  assumes "extract_resume_text lib uploaded = Some (Inl e)"
  shows "\<exists>log' e'. process_files lib cd fl log rows (before @ uploaded # after) = (log', Inl e')"
proof (cases "process_files lib cd fl log rows before")
  case (Pair log1 r)
  show ?thesis
  proof (cases r)
    case (Inl e1)
    with Pair show ?thesis by (simp add: process_files_append)
  next
    case (Inr rows1)
    with Pair process_file_extraction_fails [OF assms] show ?thesis
      by (simp add: process_files_append)
  qed
qed

text \<open>
  Claim C1, as the code has it. A resume whose text extraction fails ends the whole request:
  \<^verbatim>\<open>score_resumes\<close> returns an exception and no table, wherever the file stands in the
  batch. The extraction's exception is an HTTP 400; when the files before it went through,
  it is the outcome, and no completion request is made for the file or for any file after it.
\<close>

theorem extraction_failure_aborts_batch:
  assumes "extract_resume_text lib uploaded = Some (Inl e)"
  shows "(\<exists>e'. snd (score_resumes lib criteria (before @ uploaded # after)) = Inl e') \<and>
         (\<exists>msg. e = HTTPException 400 (''Error processing PDF: '' @ msg) \<or>
                e = HTTPException 400 (''Error processing DOCX: '' @ msg)) \<and>
         (\<forall>log rows. score_resumes lib criteria before = (log, Inr rows) \<longrightarrow>
            score_resumes lib criteria (before @ uploaded # after) = (log, Inl e))"
proof (intro conjI allI impI)
  show "\<exists>e'. snd (score_resumes lib criteria (before @ uploaded # after)) = Inl e'"
  proof (cases "parse_criteria lib criteria")
    case (Inl e0)
    then show ?thesis by (simp add: score_resumes_def)
  next
    case (Inr cd)
    from process_files_extraction_fails [OF assms] obtain log' e' where
      "process_files lib cd (flatten_criteria cd) [] [map JStr (csv_header (flatten_criteria cd))]
         (before @ uploaded # after) = (log', Inl e')"
      by blast
    with Inr show ?thesis by (simp add: score_resumes_def Let_def)
  qed
next
  show "\<exists>msg. e = HTTPException 400 (''Error processing PDF: '' @ msg) \<or>
             e = HTTPException 400 (''Error processing DOCX: '' @ msg)"
    by (rule extract_resume_text_error [OF assms])
next
  fix log rows
  assume ok: "score_resumes lib criteria before = (log, Inr rows)"
  then obtain cd where cd: "parse_criteria lib criteria = Inr cd"
    by (cases "parse_criteria lib criteria") (auto simp: score_resumes_def)
  with ok have "process_files lib cd (flatten_criteria cd) []
      [map JStr (csv_header (flatten_criteria cd))] before = (log, Inr rows)"
    by (simp add: score_resumes_def Let_def)
  with cd process_file_extraction_fails [OF assms]
  show "score_resumes lib criteria (before @ uploaded # after) = (log, Inl e)"
    by (simp add: score_resumes_def Let_def process_files_append)
qed

theorem extraction_failure_aborts_batch_witness:
  "extract_resume_text example_library broken_pdf =
     Some (Inl (HTTPException 400 (''Error processing PDF: '' @ ''EOF marker not found''))) \<and>
   snd (score_resumes example_library criteria_json [alice_pdf]) =
     Inr [[JStr ''Candidate Name'', JStr ''Must have: Python'', JStr ''Must have: SQL'', JStr ''Total Score''],
          [JStr ''alice_cv'', JInt 8, JInt 0, JInt 3]] \<and>
   score_resumes example_library criteria_json ([alice_pdf] @ broken_pdf # [alice_pdf]) =
     (fst (score_resumes example_library criteria_json [alice_pdf]),
      Inl (HTTPException 400 (''Error processing PDF: '' @ ''EOF marker not found'')))"
proof -
  have fails: "extract_resume_text example_library broken_pdf =
     Some (Inl (HTTPException 400 (''Error processing PDF: '' @ ''EOF marker not found'')))"
    by code_simp
  have ok: "snd (score_resumes example_library criteria_json [alice_pdf]) =
     Inr [[JStr ''Candidate Name'', JStr ''Must have: Python'', JStr ''Must have: SQL'', JStr ''Total Score''],
          [JStr ''alice_cv'', JInt 8, JInt 0, JInt 3]]"
    by code_simp
  then have "score_resumes example_library criteria_json [alice_pdf] =
     (fst (score_resumes example_library criteria_json [alice_pdf]),
      Inr [[JStr ''Candidate Name'', JStr ''Must have: Python'', JStr ''Must have: SQL'', JStr ''Total Score''],
          [JStr ''alice_cv'', JInt 8, JInt 0, JInt 3]])"
    by (metis prod.collapse)
  with extraction_failure_aborts_batch [OF fails, of criteria_json "[alice_pdf]" "[alice_pdf]"]
  have "score_resumes example_library criteria_json ([alice_pdf] @ broken_pdf # [alice_pdf]) =
     (fst (score_resumes example_library criteria_json [alice_pdf]),
      Inl (HTTPException 400 (''Error processing PDF: '' @ ''EOF marker not found'')))"
    by blast
  with fails ok show ?thesis by blast
qed

text \<open>
  Claim C1, as stated, on a batch of three resumes of which the second is unreadable: the
  outcome is the HTTP 400 of the extraction, not the table of the two readable resumes.
\<close>

theorem one_failed_extraction_aborts_counterexample:
  "snd (score_resumes example_library criteria_json [alice_pdf, broken_pdf, alice_pdf]) =
     Inl (HTTPException 400 ''Error processing PDF: EOF marker not found'') \<and>
   snd (score_resumes example_library criteria_json [alice_pdf, broken_pdf, alice_pdf]) \<noteq>
     Inr [[JStr ''Candidate Name'', JStr ''Must have: Python'', JStr ''Must have: SQL'', JStr ''Total Score''],
          [JStr ''alice_cv'', JInt 8, JInt 0, JInt 3],
          [JStr ''alice_cv'', JInt 8, JInt 0, JInt 3]]"
  by code_simp

section \<open>The report: header and rows\<close>

lemma flatten_criteria_concat:
  "flatten_criteria cd =
     concat (map (\<lambda>(grp, v). case v of JObj d \<Rightarrow> map (\<lambda>(crit_key, _). (grp, crit_key)) d | _ \<Rightarrow> []) cd)"
  by (induction cd rule: flatten_criteria.induct) (simp_all add: case_prod_unfold)

text \<open>
  Claim C4, as the code has it. The header is \<^verbatim>\<open>Candidate Name\<close>, then one column
  \<^verbatim>\<open><group>: <criterion>\<close> for each key of each group whose value is a dict, then
  \<^verbatim>\<open>Total Score\<close>; the groups come in the order of the criteria payload, whatever their
  names, and the keys of a group in their order in the payload.
\<close>

theorem header_follows_payload_order:
  "csv_header (flatten_criteria criteria_data) =
     [''Candidate Name''] @
     concat (map (\<lambda>(grp, v). case v of
                                JObj d \<Rightarrow> map (\<lambda>(crit_key, _). grp @ '': '' @ crit_key) d
                              | _ \<Rightarrow> [])
                 criteria_data) @
     [''Total Score'']"
proof -
  have "map header_label (flatten_criteria cd) =
          concat (map (\<lambda>(grp, v). case v of
                                JObj d \<Rightarrow> map (\<lambda>(crit_key, _). grp @ '': '' @ crit_key) d
                              | _ \<Rightarrow> []) cd)" for cd :: "(string \<times> 'a json) list"
    by (induction cd rule: flatten_criteria.induct)
       (simp_all add: header_label_def case_prod_unfold comp_def)
  then show ?thesis by (simp add: csv_header_def)
qed

theorem header_follows_payload_order_witness:
  "csv_header (flatten_criteria
      [(''Nice to have'', JObj [(''Golf'', JBool True)]),
       (''Must have'', JObj [(''Python'', JStr ''2''), (''SQL'', JBool True)]),
       (''notes'', (JStr ''urgent'' :: unit json))]) =
     [''Candidate Name'', ''Nice to have: Golf'', ''Must have: Python'', ''Must have: SQL'', ''Total Score'']"
  using header_follows_payload_order
    [of "[(''Nice to have'', JObj [(''Golf'', JBool True)]),
       (''Must have'', JObj [(''Python'', JStr ''2''), (''SQL'', JBool True)]),
       (''notes'', (JStr ''urgent'' :: unit json))]"]
  by simp

text \<open>
  Claim C4, as stated, on a payload that lists \<^verbatim>\<open>Nice to have\<close> before \<^verbatim>\<open>Must have\<close>:
  the header follows the payload, not the order Must, Good, Nice.
\<close>

theorem header_tier_order_counterexample:
  "score_resumes example_library nice_first_json [] =
     ([], Inr [[JStr ''Candidate Name'', JStr ''Nice to have: Golf'', JStr ''Must have: Python'',
                JStr ''Total Score'']]) \<and>
   snd (score_resumes example_library nice_first_json []) \<noteq>
     Inr [[JStr ''Candidate Name'', JStr ''Must have: Python'', JStr ''Nice to have: Golf'',
           JStr ''Total Score'']]"
  by code_simp





lemma build_row_last:
  assumes "build_row candidate_name fl gpt_result = Inr row"
  shows "\<exists>d. gpt_result = JObj d \<and> last row = dict_get d ''total_score'' (JInt 0)"
proof (cases gpt_result)
  case (JObj d)
  with assms show ?thesis by (auto simp: build_row_def split: sum.splits)
qed (use assms in \<open>auto simp: build_row_def split: sum.splits\<close>)

lemma process_files_rows_from_files:
  assumes "process_files lib cd fl log rows files = (log', Inr rows')"
  shows "\<exists>new. rows' = rows @ new \<and>
           (\<forall>row \<in> set new. \<exists>f \<in> set files. \<exists>l l'.
              process_file lib cd fl l f = (l', Inr (Some row)))"
  using assms
proof (induction files arbitrary: log rows)
  case Nil
  then show ?case by simp
next
  case (Cons f fs)
  obtain l1 r1 where pf: "process_file lib cd fl log f = (l1, r1)"
    by (cases "process_file lib cd fl log f")
  show ?case
  proof (cases r1)
    case (Inl e)
    with pf Cons.prems show ?thesis by simp
  next
    case (Inr r)
    show ?thesis
    proof (cases r)
      case None
      with pf Inr Cons.prems have "process_files lib cd fl l1 rows fs = (log', Inr rows')" by simp
      from Cons.IH [OF this] obtain new where "rows' = rows @ new"
        and "\<forall>row \<in> set new. \<exists>f \<in> set fs. \<exists>l l'.
              process_file lib cd fl l f = (l', Inr (Some row))"
        by blast
      then have "rows' = rows @ new \<and> (\<forall>row \<in> set new. \<exists>f' \<in> set (f # fs). \<exists>l l'.
              process_file lib cd fl l f' = (l', Inr (Some row)))"
        by simp
      then show ?thesis ..
    next
      case (Some row)
      with pf Inr Cons.prems
      have "process_files lib cd fl l1 (rows @ [row]) fs = (log', Inr rows')" by simp
      from Cons.IH [OF this] obtain new where new: "rows' = (rows @ [row]) @ new"
        and orig: "\<forall>row \<in> set new. \<exists>f \<in> set fs. \<exists>l l'.
              process_file lib cd fl l f = (l', Inr (Some row))"
        by blast
      from pf Inr Some have here: "process_file lib cd fl log f = (l1, Inr (Some row))" by simp
      have "rows' = rows @ (row # new)" using new by simp
      moreover have "\<forall>r \<in> set (row # new). \<exists>f' \<in> set (f # fs). \<exists>l l'.
              process_file lib cd fl l f' = (l', Inr (Some r))"
        using here orig by auto
      ultimately show ?thesis by (intro exI [of _ "row # new"] conjI)
    qed
  qed
qed

lemma process_file_success:
  assumes "process_file lib cd fl h f = (h', Inr (Some row))"
  shows "\<exists>resume_text content d.
           extract_resume_text lib f = Some (Inr resume_text) \<and>
           h' = h @ [score_request lib (rsplit1_head (CHR ''.'') (filename f)) resume_text (JObj cd)] \<and>
           chat_create lib h (score_request lib (rsplit1_head (CHR ''.'') (filename f)) resume_text (JObj cd)) =
             Inr content \<and>
           json_loads lib (slice_7_m3 content) = Inr (JObj d) \<and>
           build_row (rsplit1_head (CHR ''.'') (filename f)) fl (JObj d) = Inr row \<and>
           last row = dict_get d ''total_score'' (JInt 0)"
proof -
  from assms obtain resume_text where t: "extract_resume_text lib f = Some (Inr resume_text)"
    by (auto simp: process_file_def score_text_def Let_def split: option.splits sum.splits)
  let ?name = "rsplit1_head (CHR ''.'') (filename f)"
  let ?req = "score_request lib ?name resume_text (JObj cd)"
  from assms t have st: "score_text lib cd fl h ?name (Inr resume_text) = (h', Inr (Some row))"
    by (simp add: process_file_def Let_def)
  then have h': "h' = h @ [?req]"
    by (auto simp: score_text_def get_gpt_scores_def Let_def split: sum.splits prod.splits)
  from st obtain content where c: "chat_create lib h ?req = Inr content"
    by (cases "chat_create lib h ?req")
       (auto simp: score_text_def get_gpt_scores_def Let_def split: sum.splits prod.splits)
  from st c obtain g where g: "json_loads lib (slice_7_m3 content) = Inr g"
    by (cases "json_loads lib (slice_7_m3 content)")
       (auto simp: score_text_def get_gpt_scores_def Let_def split: sum.splits prod.splits)
  from st c g have b: "build_row ?name fl g = Inr row"
    by (auto simp: score_text_def get_gpt_scores_def Let_def split: sum.splits prod.splits)
  from build_row_last [OF b] obtain d where "g = JObj d"
    "last row = dict_get d ''total_score'' (JInt 0)" by blast
  with t h' c g b show ?thesis by blast
qed

lemma process_files_trace:
  assumes "process_files lib cd fl log rows files = (log', Inr rows')"
  shows "\<exists>reqs new.
           log' = log @ reqs \<and> rows' = rows @ new \<and>
           length reqs =
             length (filter (\<lambda>f. endswith (lower (filename f)) ''.pdf'' \<or>
                                 endswith (lower (filename f)) ''.docx'') files) \<and>
           length new = length reqs \<and>
           (\<forall>i < length reqs.
              process_file lib cd fl (log @ take i reqs)
                (filter (\<lambda>f. endswith (lower (filename f)) ''.pdf'' \<or>
                             endswith (lower (filename f)) ''.docx'') files ! i) =
                (log @ take (Suc i) reqs, Inr (Some (new ! i))))"
  using assms
proof (induction files arbitrary: log rows)
  case Nil
  then show ?case by simp
next
  case (Cons f fs)
  let ?sup = "\<lambda>f. endswith (lower (filename f)) ''.pdf'' \<or> endswith (lower (filename f)) ''.docx''"
  obtain l1 r1 where pf: "process_file lib cd fl log f = (l1, r1)"
    by (cases "process_file lib cd fl log f")
  show ?case
  proof (cases r1)
    case (Inl e)
    with pf Cons.prems show ?thesis by simp
  next
    case (Inr r)
    note pc = process_file_cases [OF pf [unfolded Inr]]
    show ?thesis
    proof (cases r)
      case None
      with pc have l1: "l1 = log" and ns: "\<not> ?sup f" by auto
      from pf Inr None Cons.prems l1
      have "process_files lib cd fl log rows fs = (log', Inr rows')" by simp
      from Cons.IH [OF this] ns show ?thesis by simp
    next
      case (Some row)
      with pc have sup: "?sup f" by auto
      from pf Inr Some have pf': "process_file lib cd fl log f = (l1, Inr (Some row))" by simp
      from process_file_success [OF pf'] obtain req where l1: "l1 = log @ [req]" by blast
      from pf' Cons.prems
      have "process_files lib cd fl l1 (rows @ [row]) fs = (log', Inr rows')" by simp
      from Cons.IH [OF this] obtain reqs new where
        a: "log' = l1 @ reqs" and b: "rows' = (rows @ [row]) @ new"
        and c: "length reqs = length (filter ?sup fs)" and d: "length new = length reqs"
        and e: "\<forall>i < length reqs.
              process_file lib cd fl (l1 @ take i reqs) (filter ?sup fs ! i) =
                (l1 @ take (Suc i) reqs, Inr (Some (new ! i)))"
        by blast
      have "\<forall>i < length (req # reqs).
              process_file lib cd fl (log @ take i (req # reqs)) (filter ?sup (f # fs) ! i) =
                (log @ take (Suc i) (req # reqs), Inr (Some ((row # new) ! i)))"
      proof (intro allI impI)
        fix i assume i: "i < length (req # reqs)"
        show "process_file lib cd fl (log @ take i (req # reqs)) (filter ?sup (f # fs) ! i) =
                (log @ take (Suc i) (req # reqs), Inr (Some ((row # new) ! i)))"
        proof (cases i)
          case 0
          with pf' l1 sup show ?thesis by simp
        next
          case (Suc j)
          with i have "j < length reqs" by simp
          with e have "process_file lib cd fl (l1 @ take j reqs) (filter ?sup fs ! j) =
                (l1 @ take (Suc j) reqs, Inr (Some (new ! j)))" by blast
          with Suc l1 sup show ?thesis by simp
        qed
      qed
      moreover have "log' = log @ (req # reqs)" using a l1 by simp
      moreover have "rows' = rows @ (row # new)" using b by simp
      moreover have "length (req # reqs) = length (filter ?sup (f # fs))" using c sup by simp
      moreover have "length (row # new) = length (req # reqs)" using d by simp
      ultimately show ?thesis by blast
    qed
  qed
qed


lemma score_resumes_trace:
  assumes "score_resumes lib criteria files = (log, Inr table)"
  shows "\<exists>cd. parse_criteria lib criteria = Inr cd \<and>
           hd table = map JStr (csv_header (flatten_criteria cd)) \<and>
           length log =
             length (filter (\<lambda>f. endswith (lower (filename f)) ''.pdf'' \<or>
                                 endswith (lower (filename f)) ''.docx'') files) \<and>
           length table = Suc (length log) \<and>
           (\<forall>i < length log.
              process_file lib cd (flatten_criteria cd) (take i log)
                (filter (\<lambda>f. endswith (lower (filename f)) ''.pdf'' \<or>
                             endswith (lower (filename f)) ''.docx'') files ! i) =
                (take (Suc i) log, Inr (Some (table ! Suc i))))"
proof -
  from assms obtain cd where cd: "parse_criteria lib criteria = Inr cd"
    by (cases "parse_criteria lib criteria") (auto simp: score_resumes_def)
  with assms have
    "process_files lib cd (flatten_criteria cd) [] [map JStr (csv_header (flatten_criteria cd))] files
       = (log, Inr table)"
    by (simp add: score_resumes_def Let_def)
  from process_files_trace [OF this] obtain reqs new where
    "log = [] @ reqs" "table = [map JStr (csv_header (flatten_criteria cd))] @ new"
    "length reqs =
             length (filter (\<lambda>f. endswith (lower (filename f)) ''.pdf'' \<or>
                                 endswith (lower (filename f)) ''.docx'') files)"
    "length new = length reqs"
    "\<forall>i < length reqs.
              process_file lib cd (flatten_criteria cd) ([] @ take i reqs)
                (filter (\<lambda>f. endswith (lower (filename f)) ''.pdf'' \<or>
                             endswith (lower (filename f)) ''.docx'') files ! i) =
                ([] @ take (Suc i) reqs, Inr (Some (new ! i)))"
    by blast
  with cd show ?thesis by simp
qed

lemma dict_get_update_other:
  "k \<noteq> k' \<Longrightarrow> dict_get (AList.update k' v d) k dflt = dict_get d k dflt"
  by (simp add: dict_get_def update_conv')

lemma dict_get_update_same: "dict_get (AList.update k v d) k dflt = v"
  by (simp add: dict_get_def update_conv')

lemma score_cells_total_free:
  "score_cells (JObj (AList.update ''total_score'' v d)) fl = score_cells (JObj d) fl"
  by (induction fl) (auto simp: dict_get_update_other split: sum.splits)

lemma build_row_total_free:
  "build_row candidate_name fl (JObj (AList.update ''total_score'' v d)) =
     (case build_row candidate_name fl (JObj d) of
        Inl e \<Rightarrow> Inl e
      | Inr row \<Rightarrow> Inr (butlast row @ [v]))"
  by (simp add: build_row_def score_cells_total_free dict_get_update_same butlast_append
      split: sum.splits)

lemma parse_criteria_total_free:
  "parse_criteria (lib\<lparr>json_loads := (\<lambda>s. reply_with_total v (json_loads lib s))\<rparr>) criteria =
   parse_criteria lib criteria"
proof (cases "json_loads lib criteria")
  case (Inl e)
  then show ?thesis by (simp add: parse_criteria_def reply_with_total_def)
next
  case (Inr payload)
  then show ?thesis
    by (cases payload) (simp_all add: parse_criteria_def reply_with_total_def dict_get_update_other)
qed

lemma get_gpt_scores_total_free:
  "get_gpt_scores (lib\<lparr>json_loads := (\<lambda>s. reply_with_total v (json_loads lib s))\<rparr>) h n t c =
     (case get_gpt_scores lib h n t c of
        (h', Inr (JObj d)) \<Rightarrow> (h', Inr (JObj (AList.update ''total_score'' v d)))
      | other \<Rightarrow> other)"
  by (auto simp: get_gpt_scores_def score_request_def user_message_def Let_def reply_with_total_def
      split: sum.splits json.splits)

lemma build_row_not_object:
  "(\<And>d. g \<noteq> JObj d) \<Longrightarrow> build_row n fl g = Inl AttributeError"
  by (cases g; cases fl) (auto simp: build_row_def split: sum.splits)

lemma extract_resume_text_loads_free:
  "extract_resume_text (lib\<lparr>json_loads := loads'\<rparr>) f = extract_resume_text lib f"
  by (simp add: extract_resume_text_def extract_text_from_pdf_def extract_text_from_docx_def)

lemma process_file_total_free:
  "process_file (lib\<lparr>json_loads := (\<lambda>s. reply_with_total v (json_loads lib s))\<rparr>) cd fl h f =
     (case process_file lib cd fl h f of
        (h', Inr (Some row)) \<Rightarrow> (h', Inr (Some (butlast row @ [v])))
      | other \<Rightarrow> other)"
proof (cases "extract_resume_text lib f")
  case None
  then show ?thesis by (simp add: process_file_def extract_resume_text_loads_free)
next
  case (Some ex)
  let ?lib' = "lib\<lparr>json_loads := (\<lambda>s. reply_with_total v (json_loads lib s))\<rparr>"
  have ex': "extract_resume_text ?lib' f = Some ex"
    using Some by (simp add: extract_resume_text_loads_free)
  show ?thesis
  proof (cases ex)
    case (Inl e)
    with Some ex' show ?thesis by (simp add: process_file_def score_text_def)
  next
    case (Inr t)
    let ?n = "rsplit1_head (CHR ''.'') (filename f)"
    obtain h' r where g: "get_gpt_scores lib h ?n t (JObj cd) = (h', r)"
      by (cases "get_gpt_scores lib h ?n t (JObj cd)")
    show ?thesis
    proof (cases r)
      case (Inl e)
      with g Some ex' Inr show ?thesis
        by (simp add: process_file_def score_text_def get_gpt_scores_total_free Let_def)
    next
      case r: (Inr gv)
      show ?thesis
      proof (cases "\<exists>d. gv = JObj d")
        case True
        then obtain d where "gv = JObj d" ..
        with g r Some ex' Inr show ?thesis
          by (simp add: process_file_def score_text_def get_gpt_scores_total_free Let_def
              build_row_total_free split: sum.splits)
      next
        case False
        then have no: "\<And>d. gv \<noteq> JObj d" by blast
        have "get_gpt_scores ?lib' h ?n t (JObj cd) = (h', Inr gv)"
          using g r False by (cases gv) (auto simp: get_gpt_scores_total_free)
        with g r Some ex' Inr build_row_not_object [of gv, OF no] show ?thesis
          by (simp add: process_file_def score_text_def Let_def)
      qed
    qed
  qed
qed


lemma process_files_total_free:
  "process_files (lib\<lparr>json_loads := (\<lambda>s. reply_with_total v (json_loads lib s))\<rparr>) cd fl log rows' files =
     (case process_files lib cd fl log rows files of
        (l, Inl e) \<Rightarrow> (l, Inl e)
      | (l, Inr out) \<Rightarrow>
          (l, Inr (rows' @ map (\<lambda>row. butlast row @ [v]) (drop (length rows) out))))"
proof (induction files arbitrary: log rows rows')
  case Nil
  show ?case by simp
next
  case (Cons f fs)
  let ?lib' = "lib\<lparr>json_loads := (\<lambda>s. reply_with_total v (json_loads lib s))\<rparr>"
  obtain l1 r1 where pf: "process_file lib cd fl log f = (l1, r1)"
    by (cases "process_file lib cd fl log f")
  show ?case
  proof (cases r1)
    case (Inl e)
    with pf show ?thesis by (simp add: process_file_total_free)
  next
    case (Inr r)
    show ?thesis
    proof (cases r)
      case None
      with pf Inr have "process_file ?lib' cd fl log f = (l1, Inr None)"
        by (simp add: process_file_total_free)
      with pf Inr None show ?thesis using Cons.IH [where log = l1 and rows = rows and rows' = rows'] by simp
    next
      case (Some row)
      with pf Inr have pf': "process_file ?lib' cd fl log f = (l1, Inr (Some (butlast row @ [v])))"
        by (simp add: process_file_total_free)
      obtain l2 r2 where rest: "process_files lib cd fl l1 (rows @ [row]) fs = (l2, r2)"
        by (cases "process_files lib cd fl l1 (rows @ [row]) fs")
      have lhs: "process_files ?lib' cd fl log rows' (f # fs) =
                   process_files ?lib' cd fl l1 (rows' @ [butlast row @ [v]]) fs"
        using pf' by simp
      have rhs: "process_files lib cd fl log rows (f # fs) = (l2, r2)"
        using pf Inr Some rest by simp
      show ?thesis
      proof (cases r2)
        case (Inl e)
        with rest lhs rhs show ?thesis
          using Cons.IH [where log = l1 and rows' = "rows' @ [butlast row @ [v]]" and rows = "rows @ [row]"] by simp
      next
        case out: (Inr out)
        from process_files_rows_from_files [OF rest [unfolded out]] obtain new where
          o: "out = (rows @ [row]) @ new" by blast
        have "process_files ?lib' cd fl l1 (rows' @ [butlast row @ [v]]) fs =
                (l2, Inr ((rows' @ [butlast row @ [v]]) @
                      map (\<lambda>row. butlast row @ [v]) (drop (length (rows @ [row])) out)))"
          using Cons.IH [where log = l1 and rows' = "rows' @ [butlast row @ [v]]" and rows = "rows @ [row]"] rest out by simp
        also have "(rows' @ [butlast row @ [v]]) @
                      map (\<lambda>row. butlast row @ [v]) (drop (length (rows @ [row])) out) =
                   rows' @ map (\<lambda>row. butlast row @ [v]) (drop (length rows) out)"
          using o by simp
        finally show ?thesis using lhs rhs out by simp
      qed
    qed
  qed
qed

lemma score_resumes_total_free:
  "score_resumes (lib\<lparr>json_loads := (\<lambda>s. reply_with_total v (json_loads lib s))\<rparr>) criteria files =
     (case score_resumes lib criteria files of
        (log, Inl e) \<Rightarrow> (log, Inl e)
      | (log, Inr table) \<Rightarrow> (log, Inr (hd table # map (\<lambda>row. butlast row @ [v]) (tl table))))"
proof (cases "parse_criteria lib criteria")
  case (Inl e)
  then show ?thesis by (simp add: score_resumes_def parse_criteria_total_free)
next
  case (Inr cd)
  let ?hdr = "map JStr (csv_header (flatten_criteria cd))"
  obtain l r where run: "process_files lib cd (flatten_criteria cd) [] [?hdr] files = (l, r)"
    by (cases "process_files lib cd (flatten_criteria cd) [] [?hdr] files")
  show ?thesis
  proof (cases r)
    case (Inl e)
    with Inr run show ?thesis
      using process_files_total_free [where lib = lib and v = v and cd = cd and fl = "flatten_criteria cd"
          and log = "[]" and rows = "[?hdr]" and rows' = "[?hdr]" and files = files]
      by (simp add: score_resumes_def parse_criteria_total_free Let_def)
  next
    case out: (Inr out)
    from process_files_rows_from_files [OF run [unfolded out]] obtain new where
      o: "out = [?hdr] @ new" by blast
    with Inr run out show ?thesis
      using process_files_total_free [where lib = lib and v = v and cd = cd and fl = "flatten_criteria cd"
          and log = "[]" and rows = "[?hdr]" and rows' = "[?hdr]" and files = files]
      by (simp add: score_resumes_def parse_criteria_total_free Let_def)
  qed
qed

lemma snd_outcome_case:
  "snd (case p of (l, Inl e) \<Rightarrow> (l, Inl e) | (l, Inr t) \<Rightarrow> (l, Inr (g t))) =
     (case snd p of Inl e \<Rightarrow> Inl e | Inr t \<Rightarrow> Inr (g t))"
  by (auto split: prod.splits sum.splits)







text \<open>
  Claim C5, as the code has it. When \<^verbatim>\<open>score_resumes\<close> returns a table, it has made one
  request to the completion service for each supported file, in the order of the files, and
  the table has one row for each after the header. The request for the file at position
  \<open>i\<close> is the one \<^verbatim>\<open>get_gpt_scores\<close> builds from the stem of the name of that file and its
  extracted text; the service answered it, the parse of the answer (cut at the fixed
  offsets) is a dict, and the last cell of the row at that position is the value under
  \<^verbatim>\<open>total_score\<close> in that dict (0 when the key is absent). The value is never computed nor
  checked: with any value \<open>v\<close> put under \<^verbatim>\<open>total_score\<close> in every parsed reply, the same
  requests are made, the same error is raised if one is, and the table is the same but for
  the last cell of each data row, which is \<open>v\<close>.
\<close>

theorem total_score_is_taken_from_reply:
  "(\<forall>log table. score_resumes lib criteria files = (log, Inr table) \<longrightarrow>
      length log =
        length (filter (\<lambda>f. endswith (lower (filename f)) ''.pdf'' \<or>
                            endswith (lower (filename f)) ''.docx'') files) \<and>
      length table = Suc (length log) \<and>
      (\<forall>i < length log. \<exists>cd resume_text content d.
         parse_criteria lib criteria = Inr cd \<and>
         extract_resume_text lib
           (filter (\<lambda>f. endswith (lower (filename f)) ''.pdf'' \<or>
                        endswith (lower (filename f)) ''.docx'') files ! i) = Some (Inr resume_text) \<and>
         log ! i =
           score_request lib
             (rsplit1_head (CHR ''.'')
                (filename (filter (\<lambda>f. endswith (lower (filename f)) ''.pdf'' \<or>
                                       endswith (lower (filename f)) ''.docx'') files ! i)))
             resume_text (JObj cd) \<and>
         chat_create lib (take i log) (log ! i) = Inr content \<and>
         json_loads lib (slice_7_m3 content) = Inr (JObj d) \<and>
         last (table ! Suc i) = dict_get d ''total_score'' (JInt 0))) \<and>
   score_resumes (lib\<lparr>json_loads := (\<lambda>s. reply_with_total v (json_loads lib s))\<rparr>) criteria files =
     (case score_resumes lib criteria files of
        (log, Inl e) \<Rightarrow> (log, Inl e)
      | (log, Inr table) \<Rightarrow> (log, Inr (hd table # map (\<lambda>row. butlast row @ [v]) (tl table))))"
proof (intro conjI allI impI)
  fix log table
  assume run: "score_resumes lib criteria files = (log, Inr table)"
  let ?sup = "filter (\<lambda>f. endswith (lower (filename f)) ''.pdf'' \<or>
                            endswith (lower (filename f)) ''.docx'') files"
  from score_resumes_trace [OF run] obtain cd where
    cd: "parse_criteria lib criteria = Inr cd"
    and len: "length log = length ?sup" "length table = Suc (length log)"
    and tr: "\<forall>i < length log.
              process_file lib cd (flatten_criteria cd) (take i log) (?sup ! i) =
                (take (Suc i) log, Inr (Some (table ! Suc i)))"
    by blast
  from len show "length log = length ?sup" and "length table = Suc (length log)" by simp_all
  fix i assume i: "i < length log"
  with tr have "process_file lib cd (flatten_criteria cd) (take i log) (?sup ! i) =
                (take (Suc i) log, Inr (Some (table ! Suc i)))" by blast
  from process_file_success [OF this] obtain resume_text content d where
    e: "extract_resume_text lib (?sup ! i) = Some (Inr resume_text)"
    and t: "take (Suc i) log = take i log @
              [score_request lib (rsplit1_head (CHR ''.'') (filename (?sup ! i))) resume_text (JObj cd)]"
    and c: "chat_create lib (take i log)
              (score_request lib (rsplit1_head (CHR ''.'') (filename (?sup ! i))) resume_text (JObj cd)) =
              Inr content"
    and j: "json_loads lib (slice_7_m3 content) = Inr (JObj d)"
    and l: "last (table ! Suc i) = dict_get d ''total_score'' (JInt 0)"
    by blast
  from i have "take (Suc i) log = take i log @ [log ! i]" by (rule take_Suc_conv_app_nth)
  with t have r: "log ! i =
      score_request lib (rsplit1_head (CHR ''.'') (filename (?sup ! i))) resume_text (JObj cd)"
    by simp
  with cd e c j l
  show "\<exists>cd resume_text content d.
         parse_criteria lib criteria = Inr cd \<and>
         extract_resume_text lib (?sup ! i) = Some (Inr resume_text) \<and>
         log ! i =
           score_request lib (rsplit1_head (CHR ''.'') (filename (?sup ! i))) resume_text (JObj cd) \<and>
         chat_create lib (take i log) (log ! i) = Inr content \<and>
         json_loads lib (slice_7_m3 content) = Inr (JObj d) \<and>
         last (table ! Suc i) = dict_get d ''total_score'' (JInt 0)"
    by (intro exI [of _ cd] exI [of _ resume_text] exI [of _ content] exI [of _ d]) simp
next
  show "score_resumes (lib\<lparr>json_loads := (\<lambda>s. reply_with_total v (json_loads lib s))\<rparr>) criteria files =
     (case score_resumes lib criteria files of
        (log, Inl e) \<Rightarrow> (log, Inl e)
      | (log, Inr table) \<Rightarrow> (log, Inr (hd table # map (\<lambda>row. butlast row @ [v]) (tl table))))"
    by (rule score_resumes_total_free)
qed

theorem total_score_is_taken_from_reply_witness:
  "snd (score_resumes two_reply_library criteria_json [alice_pdf, notes_txt, bob_docx]) =
     Inr [[JStr ''Candidate Name'', JStr ''Must have: Python'', JStr ''Must have: SQL'', JStr ''Total Score''],
          [JStr ''alice_cv'', JInt 8, JInt 0, JInt 3],
          [JStr ''bob'', JInt 5, JInt 2, JInt 7]] \<and>
   length (fst (score_resumes two_reply_library criteria_json [alice_pdf, notes_txt, bob_docx])) = 2 \<and>
   snd (score_resumes
          (two_reply_library
             \<lparr>json_loads := (\<lambda>s. reply_with_total (JInt 99) (json_loads two_reply_library s))\<rparr>)
          criteria_json [alice_pdf, notes_txt, bob_docx]) =
     Inr [[JStr ''Candidate Name'', JStr ''Must have: Python'', JStr ''Must have: SQL'', JStr ''Total Score''],
          [JStr ''alice_cv'', JInt 8, JInt 0, JInt 99],
          [JStr ''bob'', JInt 5, JInt 2, JInt 99]]"
proof -
  let ?T = "[[JStr ''Candidate Name'', JStr ''Must have: Python'', JStr ''Must have: SQL'', JStr ''Total Score''],
          [JStr ''alice_cv'', JInt 8, JInt 0, JInt 3],
          [JStr ''bob'', JInt 5, JInt 2, JInt 7 :: unit json]]"
  have run: "snd (score_resumes two_reply_library criteria_json [alice_pdf, notes_txt, bob_docx]) = Inr ?T"
    by code_simp
  then have run': "score_resumes two_reply_library criteria_json [alice_pdf, notes_txt, bob_docx] =
      (fst (score_resumes two_reply_library criteria_json [alice_pdf, notes_txt, bob_docx]), Inr ?T)"
    by (metis prod.collapse)
  note th = total_score_is_taken_from_reply
      [of two_reply_library criteria_json "[alice_pdf, notes_txt, bob_docx]" "JInt 99"]
  have sup: "length (filter (\<lambda>f. endswith (lower (filename f)) ''.pdf'' \<or>
                            endswith (lower (filename f)) ''.docx'') [alice_pdf, notes_txt, bob_docx]) = 2"
    by code_simp
  from th [THEN conjunct1, THEN spec, THEN spec, THEN mp, OF run', THEN conjunct1] sup
  have n: "length (fst (score_resumes two_reply_library criteria_json [alice_pdf, notes_txt, bob_docx])) = 2"
    by (simp only:)
  have "snd (score_resumes
          (two_reply_library
             \<lparr>json_loads := (\<lambda>s. reply_with_total (JInt 99) (json_loads two_reply_library s))\<rparr>)
          criteria_json [alice_pdf, notes_txt, bob_docx]) =
        (case snd (score_resumes two_reply_library criteria_json [alice_pdf, notes_txt, bob_docx]) of
           Inl e \<Rightarrow> Inl e
         | Inr t \<Rightarrow> Inr (hd t # map (\<lambda>row. butlast row @ [JInt 99]) (tl t)))"
    by (simp only: th [THEN conjunct2] snd_outcome_case)
  also have "\<dots> = Inr [[JStr ''Candidate Name'', JStr ''Must have: Python'', JStr ''Must have: SQL'', JStr ''Total Score''],
          [JStr ''alice_cv'', JInt 8, JInt 0, JInt 99],
          [JStr ''bob'', JInt 5, JInt 2, JInt 99]]"
    by (simp add: run)
  finally show ?thesis using run n by (simp only:)
qed

text \<open>
  Claim C5, as stated, on a reply whose \<^verbatim>\<open>total_score\<close> is 3 while its scores add up to
  8: the row ends with 3.
\<close>

theorem total_differs_from_sum_counterexample:
  "snd (score_resumes example_library criteria_json [alice_pdf]) =
     Inr [[JStr ''Candidate Name'', JStr ''Must have: Python'', JStr ''Must have: SQL'', JStr ''Total Score''],
          [JStr ''alice_cv'', JInt 8, JInt 0, JInt 3]] \<and>
   (JInt 3 :: unit json) \<noteq> JInt (8 + 0)"
  by code_simp

text \<open>
  Claim C7 on a reply that gives \<^verbatim>\<open>null\<close> for the tier \<^verbatim>\<open>Must have\<close>: no score is there
  for the pairs of that tier, and the row construction raises \<^verbatim>\<open>AttributeError\<close> instead
  of writing 0, which ends the whole request. The lemmas after it show that the claim holds
  whenever \<^verbatim>\<open>scores\<close> and the tiers are dicts where they are present.
\<close>

theorem null_tier_raises:
  "snd (score_resumes null_tier_library criteria_json [alice_pdf]) = Inl AttributeError \<and>
   json_loads null_tier_library (slice_7_m3 null_tier_reply) = Inr null_tier_value \<and>
   build_row ''alice_cv'' [(''Must have'', ''Python''), (''Must have'', ''SQL'')] null_tier_value =
     Inl AttributeError"
  by code_simp

lemma score_cells_objects:
  assumes "dict_get r ''scores'' (JObj []) = JObj sm"
    and "\<forall>(grp, crit_key) \<in> set fl. \<exists>gm. dict_get sm grp (JObj []) = JObj gm"
  shows "\<exists>cells. score_cells (JObj r) fl = Inr cells \<and> length cells = length fl \<and>
           (\<forall>i < length fl. \<forall>grp crit_key gm.
              fl ! i = (grp, crit_key) \<and> dict_get sm grp (JObj []) = JObj gm \<longrightarrow>
              cells ! i = dict_get gm crit_key (JInt 0))"
  using assms(2)
proof (induction fl)
  case Nil
  show ?case by simp
next
  case (Cons p fl)
  obtain grp crit_key where p: "p = (grp, crit_key)" by (cases p)
  from Cons.prems p obtain gm where gm: "dict_get sm grp (JObj []) = JObj gm" by auto
  from Cons.prems have "\<forall>(grp, crit_key) \<in> set fl. \<exists>gm. dict_get sm grp (JObj []) = JObj gm"
    by simp
  from Cons.IH [OF this] obtain cells where cells: "score_cells (JObj r) fl = Inr cells"
    "length cells = length fl"
    "\<forall>i < length fl. \<forall>grp crit_key gm.
              fl ! i = (grp, crit_key) \<and> dict_get sm grp (JObj []) = JObj gm \<longrightarrow>
              cells ! i = dict_get gm crit_key (JInt 0)"
    by blast
  have run: "score_cells (JObj r) (p # fl) = Inr (dict_get gm crit_key (JInt 0) # cells)"
    using p gm cells(1) assms(1) by simp
  have "\<forall>i < length (p # fl). \<forall>g c m.
              (p # fl) ! i = (g, c) \<and> dict_get sm g (JObj []) = JObj m \<longrightarrow>
              (dict_get gm crit_key (JInt 0) # cells) ! i = dict_get m c (JInt 0)"
  proof (intro allI impI)
    fix i g c m
    assume i: "i < length (p # fl)"
      and h: "(p # fl) ! i = (g, c) \<and> dict_get sm g (JObj []) = JObj m"
    show "(dict_get gm crit_key (JInt 0) # cells) ! i = dict_get m c (JInt 0)"
    proof (cases i)
      case 0
      with h p gm show ?thesis by simp
    next
      case (Suc j)
      with i have j: "j < length fl" by simp
      from h Suc have "fl ! j = (g, c) \<and> dict_get sm g (JObj []) = JObj m" by simp
      with cells(3) j have "cells ! j = dict_get m c (JInt 0)" by blast
      with Suc show ?thesis by simp
    qed
  qed
  with run cells(2) show ?case by simp
qed

lemma missing_scores_are_zero:
  assumes "dict_get r ''scores'' (JObj []) = JObj sm"
    and "\<forall>(grp, crit_key) \<in> set fl. \<exists>gm. dict_get sm grp (JObj []) = JObj gm"
  shows "\<exists>cells. build_row candidate_name fl (JObj r) =
             Inr ([JStr candidate_name] @ cells @ [dict_get r ''total_score'' (JInt 0)]) \<and>
           length cells = length fl \<and>
           (\<forall>i < length fl. \<forall>grp crit_key gm.
              fl ! i = (grp, crit_key) \<and> dict_get sm grp (JObj []) = JObj gm \<and>
              map_of gm crit_key = None \<longrightarrow> cells ! i = JInt 0)"
proof -
  from score_cells_objects [OF assms] obtain cells where
    c: "score_cells (JObj r) fl = Inr cells" "length cells = length fl"
    "\<forall>i < length fl. \<forall>grp crit_key gm.
              fl ! i = (grp, crit_key) \<and> dict_get sm grp (JObj []) = JObj gm \<longrightarrow>
              cells ! i = dict_get gm crit_key (JInt 0)"
    by blast
  have "build_row candidate_name fl (JObj r) =
          Inr ([JStr candidate_name] @ cells @ [dict_get r ''total_score'' (JInt 0)])"
    using c(1) by (simp add: build_row_def)
  moreover have "\<forall>i < length fl. \<forall>grp crit_key gm.
              fl ! i = (grp, crit_key) \<and> dict_get sm grp (JObj []) = JObj gm \<and>
              map_of gm crit_key = None \<longrightarrow> cells ! i = JInt 0"
  proof (intro allI impI)
    fix i grp crit_key gm
    assume i: "i < length fl"
      and h: "fl ! i = (grp, crit_key) \<and> dict_get sm grp (JObj []) = JObj gm \<and>
              map_of gm crit_key = None"
    from h have "fl ! i = (grp, crit_key) \<and> dict_get sm grp (JObj []) = JObj gm" by simp
    with c(3) i have "cells ! i = dict_get gm crit_key (JInt 0)" by blast
    moreover from h have "dict_get gm crit_key (JInt 0) = JInt 0" by (simp add: dict_get_def)
    ultimately show "cells ! i = JInt 0" by simp
  qed
  ultimately show ?thesis using c(2) by blast
qed

section \<open>Replacing \<^verbatim>\<open>True\<close> and \<^verbatim>\<open>False\<close>\<close>

lemma replace_Nil: "old \<noteq> [] \<Longrightarrow> replace old new [] = []"
  by simp











section \<open>The criteria extractor: \<^verbatim>\<open>extract_criteria_from_text\<close>\<close>

text \<open>
  Claim C3, as the code has it. The completion is stripped of surrounding white space and
  \<^verbatim>\<open>True\<close>/\<^verbatim>\<open>False\<close> are replaced first; the one strict JSON parse is of the replaced
  text. Only when it fails is the text as it was before the replacement evaluated as a Python
  literal (\<^verbatim>\<open>ast.literal_eval\<close>); when that fails too, the result is an HTTP 500 whose
  detail is \<^verbatim>\<open>Error processing text with OpenAI: \<close> and the message of that second failure.
  What \<^verbatim>\<open>json.loads\<close> would say of any other text, the raw one included, plays no part.
\<close>

theorem extraction_normalizes_then_parses_then_evaluates:
  assumes "criteria_completion lib job_text = Inr content"
  shows "extract_criteria_from_text lib job_text =
           (case json_loads lib (replace ''False'' ''false'' (replace ''True'' ''true'' (strip content))) of
              Inr parsed \<Rightarrow> Inr parsed
            | Inl _ \<Rightarrow>
                (case literal_eval lib (strip content) of
                   Inr parsed \<Rightarrow> Inr parsed
                 | Inl e \<Rightarrow> Inl (HTTPException 500 (''Error processing text with OpenAI: '' @ e)))) \<and>
         (\<forall>loads'.
            loads' (normalize_booleans (strip content)) =
              json_loads lib (normalize_booleans (strip content)) \<longrightarrow>
            extract_criteria_from_text (lib\<lparr>json_loads := loads'\<rparr>) job_text =
              extract_criteria_from_text lib job_text)"
  using assms
  by (simp add: extract_criteria_from_text_def parse_criteria_text_def normalize_booleans_def
      processing_error_def Let_def split: sum.splits)

theorem extraction_normalizes_then_parses_then_evaluates_witness:
  "criteria_completion criteria_library ''Pilot, True North certified'' =
     Inr ('' '' @ true_north_json @ ''\<newline>'') \<and>
   strip ('' '' @ true_north_json @ ''\<newline>'') = true_north_json \<and>
   normalize_booleans true_north_json = true_north_normalized \<and>
   json_loads criteria_library true_north_normalized = Inr true_north_lowered \<and>
   extract_criteria_from_text criteria_library ''Pilot, True North certified'' = Inr true_north_lowered \<and>
   extract_criteria_from_text
     (criteria_library\<lparr>json_loads := (\<lambda>s. if s = true_north_normalized then Inr true_north_lowered
                                             else Inl ''rejected'')\<rparr>)
     ''Pilot, True North certified'' = Inr true_north_lowered"
proof -
  have c: "criteria_completion criteria_library ''Pilot, True North certified'' =
     Inr ('' '' @ true_north_json @ ''\<newline>'')"
    by (simp add: criteria_library_def)
  have facts: "strip ('' '' @ true_north_json @ ''\<newline>'') = true_north_json \<and>
   normalize_booleans true_north_json = true_north_normalized \<and>
   json_loads criteria_library true_north_normalized = Inr true_north_lowered \<and>
   extract_criteria_from_text criteria_library ''Pilot, True North certified'' = Inr true_north_lowered"
    by code_simp
  have same: "(\<lambda>s. if s = true_north_normalized then Inr true_north_lowered else Inl ''rejected'')
      (normalize_booleans (strip ('' '' @ true_north_json @ ''\<newline>''))) =
    json_loads criteria_library (normalize_booleans (strip ('' '' @ true_north_json @ ''\<newline>'')))"
    by code_simp
  have "extract_criteria_from_text
     (criteria_library\<lparr>json_loads := (\<lambda>s. if s = true_north_normalized then Inr true_north_lowered
                                             else Inl ''rejected'')\<rparr>)
     ''Pilot, True North certified'' =
     extract_criteria_from_text criteria_library ''Pilot, True North certified''"
    by (rule extraction_normalizes_then_parses_then_evaluates
          [OF c, THEN conjunct2, THEN spec,
           of "\<lambda>s. if s = true_north_normalized then Inr true_north_lowered else Inl ''rejected''",
           THEN mp, OF same])
  with c facts show ?thesis by (simp only:)
qed

text \<open>
  Claim C3, as stated, on three completions. A JSON text with \<^verbatim>\<open>True\<close> in a criterion name:
  the stated order returns the parse of the raw text, the code the parse of the replaced
  text. The same criteria as a Python literal: both strict parses fail, so the stated
  procedure fails, and the code returns the evaluated literal. A reply in prose: the code's
  error carries the message of \<^verbatim>\<open>ast.literal_eval\<close> and not the raw text.
\<close>

theorem raw_text_is_never_parsed_first_counterexample:
  "spec_two_stage_parse criteria_library true_north_json = Inr true_north_value \<and>
   parse_criteria_text criteria_library true_north_json = Inr true_north_lowered \<and>
   true_north_lowered \<noteq> true_north_value \<and>
   spec_two_stage_parse criteria_library true_north_python = Inl true_north_python \<and>
   parse_criteria_text criteria_library true_north_python = Inr true_north_value \<and>
   spec_two_stage_parse criteria_library ''Sorry, I cannot help.'' = Inl ''Sorry, I cannot help.'' \<and>
   parse_criteria_text criteria_library ''Sorry, I cannot help.'' =
     Inl (HTTPException 500 ''Error processing text with OpenAI: invalid syntax (<unknown>, line 1)'') \<and>
   \<not> sublist ''Sorry, I cannot help.''
        ''Error processing text with OpenAI: invalid syntax (<unknown>, line 1)''"
  by code_simp




end
